theory Spec2Isabelle
  imports Main "HOL-Library.Multiset" "HOL-Library.Sublist"
begin

section \<open>Data model (types.ts)\<close>

text \<open>
  The interfaces of the repository become records. A field whose source name is an Isabelle
  keyword or a HOL constant carries a suffix: \<open>id\<close>, \<open>term\<close> and \<open>definition\<close> of
  \<open>WordItem\<close> are \<open>id_w\<close>, \<open>term_w\<close> and \<open>definition_w\<close>; \<open>id\<close> and \<open>type\<close> of
  \<open>StudySet\<close> are \<open>id_s\<close> and \<open>type_s\<close>; \<open>context\<close> of \<open>QuizQuestion\<close> is
  \<open>context_q\<close>; \<open>total\<close> and \<open>wordCount\<close> of \<open>LearningSessionStats\<close> are \<open>total_st\<close>
  and \<open>wordCount_st\<close>. An optional field is an \<open>option\<close>. Time stamps (\<open>Date.now()\<close>,
  epoch milliseconds) are integers, counters are naturals.
\<close>

record WordItem =
  id_w :: string
  term_w :: string
  definition_w :: "string option"
  phonetic :: "string option"
  example :: "string option"
  masteryLevel :: int
  lastMemorizedAt :: "int option"

datatype SetType = IMAGE | DOC | EXCEL | TEXT | DEMO

record StudySet =
  id_s :: string
  name :: string
  wordCount :: nat
  words :: "WordItem list"
  type_s :: SetType
  createdAt :: int

record QuizQuestion =
  word :: string
  correctAnswer :: string
  options :: "string list"
  context_q :: "string option"

datatype AppView = LANDING | LEARNING | SUMMARY | TESTING

record LearningSessionStats =
  total_st :: nat
  correct :: nat
  incorrect :: nat
  wordCount_st :: nat
  startTime :: int

section \<open>Strings\<close>

text \<open>
  \<open>String.prototype.toLowerCase\<close> on the ASCII range: the letters \<open>A\<close> to \<open>Z\<close> move to
  \<open>a\<close> to \<open>z\<close>, every other character stays. (The vocabulary is English; a character
  outside ASCII is left as it is here.) No proof below depends on which function
  \<open>toLowerCase\<close> is: only the evaluations at concrete words do.
\<close>

definition toLowerChar :: "char \<Rightarrow> char" where
  "toLowerChar c =
     (case map_of (zip ''ABCDEFGHIJKLMNOPQRSTUVWXYZ'' ''abcdefghijklmnopqrstuvwxyz'') c of
        None \<Rightarrow> c
      | Some l \<Rightarrow> l)"

definition toLowerCase :: "string \<Rightarrow> string" where
  "toLowerCase s = map toLowerChar s"

text \<open>The key every collection compares items by: \<open>w.term.toLowerCase()\<close>.\<close>

abbreviation termKey :: "WordItem \<Rightarrow> string" where
  "termKey w \<equiv> toLowerCase (term_w w)"

text \<open>
  A template literal \<open>`${n}`\<close> prints an integer in decimal; \<open>showNat\<close> prints a natural
  number, \<open>numToString\<close> an integer.
\<close>

definition digitChar :: "nat \<Rightarrow> char" where
  "digitChar d = ''0123456789'' ! d"

function showNat :: "nat \<Rightarrow> string" where
  "showNat n = (if n < 10 then [digitChar n] else showNat (n div 10) @ [digitChar (n mod 10)])"
  by pat_completeness auto
termination
  by (relation "measure (\<lambda>n. n)") auto

declare showNat.simps [simp del]

definition numToString :: "int \<Rightarrow> string" where
  "numToString n = (if n < 0 then CHR ''-'' # showNat (nat (- n)) else showNat (nat n))"

text \<open>An array read \<open>xs[i]\<close>: \<open>undefined\<close> (here \<open>None\<close>) out of range.\<close>

definition at :: "'a list \<Rightarrow> nat \<Rightarrow> 'a option" where
  "at xs i = (if i < length xs then Some (xs ! i) else None)"

text \<open>
  \<open>String.prototype.trim\<close> removes white space and line terminators from both ends; on
  the ASCII range these are the space and the characters \<open>0x09\<close> to \<open>0x0D\<close>. (White space
  outside ASCII stays where it is here.) No proof below depends on which characters
  \<open>trim\<close> removes: only the evaluations at concrete files do.
\<close>

definition isSpace :: "char \<Rightarrow> bool" where
  "isSpace c = (c \<in> set [CHR '' '', CHR 0x09, CHR 0x0A, CHR 0x0B, CHR 0x0C, CHR 0x0D])"

definition trim :: "string \<Rightarrow> string" where
  "trim s = rev (dropWhile isSpace (rev (dropWhile isSpace s)))"

text \<open>\<open>s.includes(sub)\<close>: \<open>sub\<close> occurs in \<open>s\<close> as a block.\<close>

fun includesStr :: "string \<Rightarrow> string \<Rightarrow> bool" where
  "includesStr [] sub = (sub = [])"
| "includesStr (c # cs) sub = (take (length sub) (c # cs) = sub \<or> includesStr cs sub)"

text \<open>
  \<open>s.split(c)\<close> for a one-character separator: the pieces between the occurrences of
  \<open>c\<close>, one piece more than there are occurrences.
\<close>

fun splitOn :: "char \<Rightarrow> string \<Rightarrow> string list" where
  "splitOn c [] = [[]]"
| "splitOn c (x # xs) =
     (if x = c then [] # splitOn c xs
      else (case splitOn c xs of [] \<Rightarrow> [[x]] | piece # pieces \<Rightarrow> (x # piece) # pieces))"

text \<open>
  \<open>s.split(/\r?\n/)\<close>: the separators are the line feeds, each with the carriage return
  in front of it when there is one. So every piece but the last loses one carriage
  return at its end.
\<close>

definition dropCR :: "string \<Rightarrow> string" where
  "dropCR line = (if line \<noteq> [] \<and> last line = CHR 0x0D then butlast line else line)"

definition splitLines :: "string \<Rightarrow> string list" where
  "splitLines content =
     (let pieces = splitOn (CHR 0x0A) content
      in map dropCR (butlast pieces) @ [last pieces])"

section \<open>The state of the App component\<close>

text \<open>
  The messages \<open>setErrorMessage\<close> shows are Chinese sentences; the model names them.
\<close>

datatype Message = NeedThreeWords | NoQuestionsGenerated | QuizGenerationFailed

text \<open>
  \<open>handleCardResult\<close> and \<open>handleQuizAnswer\<close> commit an answer in a \<open>setTimeout\<close>
  callback. The callback reads the variables of the render in which the handler was
  created; the records below hold the variables each callback reads, and \<open>cardClosure\<close>
  and \<open>quizClosure\<close> further down fill them from the state at the click.
\<close>

record CardClosure =
  cc_currentWord :: WordItem
  cc_currentWordIndex :: nat
  cc_wordList :: "WordItem list"
  cc_missedWords :: "WordItem list"
  cc_historyWords :: "WordItem list"

record QuizClosure =
  qc_originalWord :: "WordItem option"
  qc_currentQuizIndex :: nat
  qc_quizQuestions :: "QuizQuestion list"
  qc_missedWords :: "WordItem list"

datatype Timer =
    CardTimer bool CardClosure
  | QuizTimer bool QuizClosure
  | ErrorTimer

text \<open>
  The state: the \<open>useState\<close> cells of \<open>App\<close>, the three \<open>localStorage\<close> entries (named
  by their keys), the pending \<open>setTimeout\<close> callbacks, the pending \<open>generateQuiz\<close>
  requests (each with the terms it was sent) and the files that are being parsed (each
  with the library of the render in which the file was chosen: the \<open>handleUpload\<close> that
  the parser will call is the one of that render).
\<close>

record App =
  view :: AppView
  wordList :: "WordItem list"
  currentWordIndex :: nat
  stats :: LearningSessionStats
  isProcessing :: bool
  errorMessage :: "Message option"
  missedWords :: "WordItem list"
  historyWords :: "WordItem list"
  library :: "StudySet list"
  quizQuestions :: "QuizQuestion list"
  currentQuizIndex :: nat
  quizLoading :: bool
  lastIncorrectInSession :: "WordItem list"
  vocab_boost_missed_words :: "WordItem list option"
  vocab_boost_history_words :: "WordItem list option"
  vocab_boost_library_v1 :: "StudySet list option"
  timers :: "Timer list"
  quizRequests :: "string list list"
  pendingUploads :: "StudySet list list"

definition initialApp :: App where
  "initialApp =
     \<lparr>view = LANDING, wordList = [], currentWordIndex = 0,
      stats = \<lparr>total_st = 0, correct = 0, incorrect = 0, wordCount_st = 0, startTime = 0\<rparr>,
      isProcessing = False, errorMessage = None, missedWords = [], historyWords = [],
      library = [], quizQuestions = [], currentQuizIndex = 0, quizLoading = False,
      lastIncorrectInSession = [],
      vocab_boost_missed_words = None, vocab_boost_history_words = None,
      vocab_boost_library_v1 = None, timers = [], quizRequests = [], pendingUploads = []\<rparr>"

section \<open>Persistence\<close>

text \<open>
  The effect that runs once when the component is mounted: each list that
  \<open>localStorage\<close> holds replaces the empty list of the initial state.
\<close>

definition mountApp :: "App \<Rightarrow> App" where
  "mountApp s =
     (let s1 = (case vocab_boost_missed_words s of
                  None \<Rightarrow> s | Some savedMissed \<Rightarrow> s\<lparr>missedWords := savedMissed\<rparr>);
          s2 = (case vocab_boost_history_words s1 of
                  None \<Rightarrow> s1 | Some savedHistory \<Rightarrow> s1\<lparr>historyWords := savedHistory\<rparr>)
      in (case vocab_boost_library_v1 s2 of
            None \<Rightarrow> s2 | Some savedLibrary \<Rightarrow> s2\<lparr>library := savedLibrary\<rparr>))"

text \<open>
  \<open>saveMissed\<close>, \<open>saveHistory\<close> and \<open>saveToLibrary\<close> set the state cell and write the same
  list to \<open>localStorage\<close>.
\<close>

definition saveMissed :: "WordItem list \<Rightarrow> App \<Rightarrow> App" where
  "saveMissed ws s = s\<lparr>missedWords := ws, vocab_boost_missed_words := Some ws\<rparr>"

definition saveHistory :: "WordItem list \<Rightarrow> App \<Rightarrow> App" where
  "saveHistory ws s = s\<lparr>historyWords := ws, vocab_boost_history_words := Some ws\<rparr>"

definition saveToLibrary :: "StudySet \<Rightarrow> App \<Rightarrow> App" where
  "saveToLibrary st s =
     (let newLibrary = take 20 (st # filter (\<lambda>item. name item \<noteq> name st) (library s))
      in s\<lparr>library := newLibrary, vocab_boost_library_v1 := Some newLibrary\<rparr>)"

definition deleteFromLibrary :: "string \<Rightarrow> App \<Rightarrow> App" where
  "deleteFromLibrary i s =
     (let newLibrary = filter (\<lambda>item. id_s item \<noteq> i) (library s)
      in s\<lparr>library := newLibrary, vocab_boost_library_v1 := Some newLibrary\<rparr>)"

section \<open>Ingestion (FileUpload.tsx)\<close>

text \<open>The object literal \<open>{ id: i, term: t, masteryLevel: 0 }\<close>.\<close>

definition wordItem :: "string \<Rightarrow> string \<Rightarrow> WordItem" where
  "wordItem i t =
     \<lparr>id_w = i, term_w = t, definition_w = None, phonetic = None, example = None,
      masteryLevel = 0, lastMemorizedAt = None\<rparr>"

text \<open>
  \<open>handleImageOCR\<close> and \<open>parseWordDoc\<close> build the items they hand to \<open>onUpload\<close> with
  \<open>words.map((w, i) => ({ id: `ocr-${i}-${Date.now()}`, term: w, masteryLevel: 0 }))\<close>
  (the prefix is \<open>word-extract-\<close> for a document). \<open>clock i\<close> is the reading of
  \<open>Date.now()\<close> at item \<open>i\<close>.
\<close>

definition indexedItems :: "string \<Rightarrow> (nat \<Rightarrow> int) \<Rightarrow> string list \<Rightarrow> WordItem list" where
  "indexedItems pre clock ws =
     map (\<lambda>(i, w). wordItem (pre @ showNat i @ ''-'' @ numToString (clock i)) w)
       (enumerate 0 ws)"

definition ocrItems :: "(nat \<Rightarrow> int) \<Rightarrow> string list \<Rightarrow> WordItem list" where
  "ocrItems clock ws = indexedItems ''ocr-'' clock ws"

definition docItems :: "(nat \<Rightarrow> int) \<Rightarrow> string list \<Rightarrow> WordItem list" where
  "docItems clock ws = indexedItems ''word-extract-'' clock ws"

text \<open>
  Each parser ends in a call \<open>onUpload(words, file.name, type)\<close> or in an error message of
  \<open>FileUpload\<close>; the functions below return the items and the type of that call, \<open>None\<close>
  when there is no call. \<open>handleImageOCR\<close> gets the words \<open>extractWordsFromImage\<close>
  answered, \<open>parseWordDoc\<close> the raw text of the document and the words
  \<open>extractVocabularyFromText\<close> answered.
\<close>

definition handleImageOCR :: "(nat \<Rightarrow> int) \<Rightarrow> string list \<Rightarrow> (WordItem list \<times> SetType) option" where
  "handleImageOCR clock ws = (if length ws > 0 then Some (ocrItems clock ws, IMAGE) else None)"

definition parseWordDoc ::
  "(nat \<Rightarrow> int) \<Rightarrow> string \<Rightarrow> string list \<Rightarrow> (WordItem list \<times> SetType) option" where
  "parseWordDoc clock content ws =
     (if length (trim content) < 10 then None
      else if length ws > 0 then Some (docItems clock ws, DOC) else None)"

text \<open>
  A row of \<open>XLSX.utils.sheet_to_json(worksheet, { header: 1 })\<close> is an array of cells. A
  cell is read as \<open>String(row[i] || '')\<close> or as \<open>row[i] ? String(row[i]).trim() : undefined\<close>:
  what counts is whether it is truthy and what \<open>String\<close> prints. \<open>Some c\<close> is a cell
  printed as \<open>c\<close> (falsy when \<open>c\<close> is the empty string), \<open>None\<close> any other falsy cell. A
  missing row is the empty row.
\<close>

type_synonym Cell = "string option"

definition cellString :: "Cell list \<Rightarrow> nat \<Rightarrow> string" where
  "cellString row i = (case at row i of Some (Some c) \<Rightarrow> c | _ \<Rightarrow> [])"

definition cellTrimmed :: "Cell list \<Rightarrow> nat \<Rightarrow> string option" where
  "cellTrimmed row i =
     (case at row i of Some (Some c) \<Rightarrow> (if c = [] then None else Some (trim c)) | _ \<Rightarrow> None)"

text \<open>
  The header test of \<open>parseExcel\<close> looks for a Chinese character (U+8BCD) in the first
  cell; \<open>headerMark\<close> holds the three bytes of its UTF-8 encoding.
\<close>

definition headerMark :: string where
  "headerMark = [CHR 0xE8, CHR 0xAF, CHR 0x8D]"

text \<open>The body of the \<open>forEach\<close> of \<open>parseExcel\<close>: the item the row adds, if any.\<close>

definition excelRow :: "(nat \<Rightarrow> int) \<Rightarrow> nat \<Rightarrow> Cell list \<Rightarrow> WordItem option" where
  "excelRow clock index row =
     (if length row = 0 then None
      else (let firstCell = trim (toLowerCase (cellString row 0))
            in if index = 0 \<and> (firstCell = ''term'' \<or> firstCell = ''word''
                               \<or> includesStr firstCell headerMark)
               then None
               else (let t = trim (cellString row 0)
                     in if t = [] then None
                        else Some \<lparr>id_w = ''word-'' @ showNat index @ ''-'' @ numToString (clock index),
                                   term_w = t, definition_w = cellTrimmed row 1,
                                   phonetic = None, example = cellTrimmed row 2,
                                   masteryLevel = 0, lastMemorizedAt = None\<rparr>)))"

definition parseExcel :: "(nat \<Rightarrow> int) \<Rightarrow> Cell list list \<Rightarrow> (WordItem list \<times> SetType) option" where
  "parseExcel clock rows =
     (let ws = List.map_filter (\<lambda>(index, row). excelRow clock index row) (enumerate 0 rows)
      in if length ws = 0 then None else Some (ws, EXCEL))"

text \<open>The body of the \<open>forEach\<close> of \<open>parseTextOrCsv\<close>.\<close>

definition textLine :: "(nat \<Rightarrow> int) \<Rightarrow> nat \<Rightarrow> string \<Rightarrow> WordItem option" where
  "textLine clock index line =
     (if index = 0 \<and> (includesStr (toLowerCase line) ''term''
                       \<or> includesStr (toLowerCase line) ''word'')
      then None
      else (let parts = splitOn (CHR '','') line
            in if length parts \<ge> 2
               then Some \<lparr>id_w = ''word-'' @ showNat index @ ''-'' @ numToString (clock index),
                          term_w = trim (parts ! 0), definition_w = Some (trim (parts ! 1)),
                          phonetic = None, example = map_option trim (at parts 2),
                          masteryLevel = 0, lastMemorizedAt = None\<rparr>
               else (let cleanTerm = trim line
                     in if cleanTerm = [] then None
                        else Some (wordItem
                               (''word-'' @ showNat index @ ''-'' @ numToString (clock index))
                               cleanTerm))))"

definition parseTextOrCsv :: "(nat \<Rightarrow> int) \<Rightarrow> string \<Rightarrow> (WordItem list \<times> SetType) option" where
  "parseTextOrCsv clock content =
     (let lines = filter (\<lambda>line. trim line \<noteq> []) (splitLines content);
          ws = List.map_filter (\<lambda>(index, line). textLine clock index line) (enumerate 0 lines)
      in if length ws = 0 then None else Some (ws, TEXT))"

text \<open>
  \<open>parseFile\<close> picks the parser by the MIME type and the suffix of the name of the file.
  A \<open>Source\<close> is a file as the parser picked for it reads it: the words found in an
  image, the raw text of a document and the words extracted from it, the rows of the
  first sheet of a workbook, the text of any other file. (A file whose reading throws
  ends in an error message and no call of \<open>onUpload\<close>.)
\<close>

datatype Source =
    ImageFile "string list"
  | DocumentFile string "string list"
  | SheetFile "Cell list list"
  | TextFile string

fun parseFile :: "(nat \<Rightarrow> int) \<Rightarrow> Source \<Rightarrow> (WordItem list \<times> SetType) option" where
  "parseFile clock (ImageFile ws) = handleImageOCR clock ws"
| "parseFile clock (DocumentFile content ws) = parseWordDoc clock content ws"
| "parseFile clock (SheetFile rows) = parseExcel clock rows"
| "parseFile clock (TextFile content) = parseTextOrCsv clock content"

section \<open>Starting a learning session\<close>

text \<open>
  \<open>new Set(xs)\<close> adds the elements of \<open>xs\<close> one by one, each only when it is not yet in
  the set, and \<open>Array.from\<close> lists a set in insertion order.
\<close>

definition Set_add :: "'a list \<Rightarrow> 'a \<Rightarrow> 'a list" where
  "Set_add S x = (if x \<in> set S then S else S @ [x])"

definition newSet :: "'a list \<Rightarrow> 'a list" where
  "newSet xs = foldl Set_add [] xs"

text \<open>
  \<open>uniqueWords\<close> of \<open>startLearning\<close>. The source asserts with \<open>!\<close> that \<open>find\<close> succeeds;
  lemma \<open>find_key_Some\<close> below proves that it does, for every key of the set.
\<close>

definition uniqueWords :: "WordItem list \<Rightarrow> WordItem list" where
  "uniqueWords ws =
     map (\<lambda>t. the (find (\<lambda>w. termKey w = t) ws)) (newSet (map (\<lambda>w. termKey w) ws))"

definition startLearning :: "int \<Rightarrow> WordItem list \<Rightarrow> App \<Rightarrow> App" where
  "startLearning now ws s =
     (let u = uniqueWords ws
      in s\<lparr>wordList := u, currentWordIndex := 0, lastIncorrectInSession := [],
           stats := \<lparr>total_st = length u, correct = 0, incorrect = 0,
                     wordCount_st = length u, startTime = now\<rparr>,
           view := LEARNING\<rparr>)"

text \<open>
  \<open>handleUpload\<close> is called by the parser of \<open>FileUpload\<close>, when the parse is done, as the
  function it was in the render in which the file was chosen. Its \<open>saveToLibrary\<close>
  therefore builds the new library from \<open>renderLibrary\<close>, the library of that render,
  which is the current one unless the library changed while the file was parsed.
\<close>

definition handleUpload ::
  "StudySet list \<Rightarrow> int \<Rightarrow> WordItem list \<Rightarrow> string \<Rightarrow> SetType \<Rightarrow> App \<Rightarrow> App" where
  "handleUpload renderLibrary now ws fileName ty s =
     (let newSet = \<lparr>id_s = ''set-'' @ numToString now, name = fileName,
                     wordCount = length ws, words = ws, type_s = ty, createdAt = now\<rparr>
      in startLearning now ws (saveToLibrary newSet (s\<lparr>library := renderLibrary\<rparr>)))"

section \<open>The built-in demo\<close>

definition DEMO_WORDS :: "WordItem list" where
  "DEMO_WORDS =
     [wordItem ''1'' ''Environment'', wordItem ''2'' ''Challenge'',
      wordItem ''3'' ''Technology'', wordItem ''4'' ''Experience'',
      wordItem ''5'' ''Government'', wordItem ''6'' ''Society'',
      wordItem ''7'' ''Benefit'', wordItem ''8'' ''Influence'']"

text \<open>
  The name of the demo set is a Chinese string constant in the source; \<open>demoSetName\<close>
  stands for it.
\<close>

definition demoSetName :: string where
  "demoSetName = ''<demo set>''"

definition startDemoLearning :: "int \<Rightarrow> App \<Rightarrow> App" where
  "startDemoLearning now s =
     (let mockHistory = map (\<lambda>w. w\<lparr>lastMemorizedAt := Some now\<rparr>) (take 4 DEMO_WORDS);
          demoSet = \<lparr>id_s = ''demo-set'', name = demoSetName,
                      wordCount = length DEMO_WORDS, words = DEMO_WORDS, type_s = DEMO,
                      createdAt = now\<rparr>
      in startLearning now DEMO_WORDS (saveToLibrary demoSet (saveHistory mockHistory s)))"

section \<open>The weekly test\<close>

text \<open>
  \<open>recentWords\<close> of \<open>startWeeklyTest\<close> (and \<open>recentCount\<close>, \<open>canTest\<close> of \<open>renderLanding\<close>):
  \<open>w.lastMemorizedAt || 0\<close> is \<open>0\<close> for an item never memorized.
\<close>

definition recentWords :: "int \<Rightarrow> WordItem list \<Rightarrow> WordItem list" where
  "recentWords now history =
     (let oneWeekAgo = now - 7 * 24 * 60 * 60 * 1000
      in filter (\<lambda>w. (case lastMemorizedAt w of None \<Rightarrow> 0 | Some t \<Rightarrow> t) > oneWeekAgo) history)"

definition canTest :: "int \<Rightarrow> App \<Rightarrow> bool" where
  "canTest now s = (length (recentWords now (historyWords s)) \<ge> 3)"

text \<open>
  \<open>startWeeklyTest\<close> up to its \<open>await\<close>. The result of
  \<open>[...recentWords].sort(() => 0.5 - Math.random())\<close> is not determined by the program:
  \<open>sortRandom\<close> is the rearrangement the engine's sort returns. A call of \<open>generateQuiz\<close>
  is an entry of \<open>quizRequests\<close>.
\<close>

definition startWeeklyTest :: "int \<Rightarrow> (WordItem list \<Rightarrow> WordItem list) \<Rightarrow> App \<Rightarrow> App" where
  "startWeeklyTest now sortRandom s =
     (let recent = recentWords now (historyWords s)
      in if length recent < 3
         then s\<lparr>errorMessage := Some NeedThreeWords, timers := timers s @ [ErrorTimer]\<rparr>
         else (let shuffled = take 10 (sortRandom recent)
               in s\<lparr>quizLoading := True,
                    quizRequests := quizRequests s @ [map term_w shuffled]\<rparr>))"

text \<open>
  \<open>startWeeklyTest\<close> after its \<open>await\<close>: \<open>response\<close> is what \<open>generateQuiz\<close> resolved to,
  \<open>None\<close> when the promise was rejected.
\<close>

definition quizGenerated :: "int \<Rightarrow> QuizQuestion list option \<Rightarrow> App \<Rightarrow> App" where
  "quizGenerated now response s =
     (let s1 =
        (case response of
           None \<Rightarrow> s\<lparr>errorMessage := Some QuizGenerationFailed\<rparr>
         | Some questions \<Rightarrow>
             if length questions > 0
             then s\<lparr>quizQuestions := questions, currentQuizIndex := 0,
                    stats := \<lparr>total_st = length questions, correct = 0, incorrect = 0,
                              wordCount_st = length questions, startTime = now\<rparr>,
                    lastIncorrectInSession := [], view := TESTING\<rparr>
             else s\<lparr>errorMessage := Some NoQuestionsGenerated\<rparr>)
      in s1\<lparr>quizLoading := False\<rparr>)"

section \<open>The random sort\<close>











section \<open>Answers\<close>

text \<open>
  \<open>handleCardResult\<close>, the part that runs at the click: it sets \<open>isProcessing\<close> and leaves
  the commit to a timer. It does not read \<open>isProcessing\<close>. The result is \<open>None\<close> when
  \<open>wordList[currentWordIndex]\<close> is \<open>undefined\<close>: the callback would dereference it
  (\<open>currentWord.term\<close>). \<open>renderLearning\<close> renders no flashcard in that case, so no click
  reaches the handler then.
\<close>

definition cardClosure :: "WordItem \<Rightarrow> App \<Rightarrow> CardClosure" where
  "cardClosure currentWord s =
     \<lparr>cc_currentWord = currentWord, cc_currentWordIndex = currentWordIndex s,
      cc_wordList = wordList s, cc_missedWords = missedWords s,
      cc_historyWords = historyWords s\<rparr>"

definition handleCardResult :: "bool \<Rightarrow> App \<Rightarrow> App option" where
  "handleCardResult success s =
     (case at (wordList s) (currentWordIndex s) of
        None \<Rightarrow> None
      | Some currentWord \<Rightarrow>
          Some (s\<lparr>isProcessing := True,
                  timers := timers s @ [CardTimer success (cardClosure currentWord s)]\<rparr>))"

text \<open>
  The callback of \<open>handleCardResult\<close>, run 400 ms later on the state \<open>s\<close> of that moment.
  The functional updates (\<open>setStats(prev => ...)\<close>) read \<open>s\<close>; \<open>saveHistory\<close> and
  \<open>saveMissed\<close> write lists computed from the closure \<open>c\<close>.
\<close>

definition cardTimeout :: "int \<Rightarrow> bool \<Rightarrow> CardClosure \<Rightarrow> App \<Rightarrow> App" where
  "cardTimeout now success c s =
     (let currentWord = cc_currentWord c;
          s1 =
            (if success
             then (let s' = s\<lparr>stats := (stats s)\<lparr>correct := correct (stats s) + 1\<rparr>\<rparr>;
                       updatedWord = currentWord\<lparr>lastMemorizedAt := Some now\<rparr>;
                       newHistory =
                         take 500 (updatedWord #
                           filter (\<lambda>w. termKey w \<noteq> termKey currentWord) (cc_historyWords c))
                   in saveMissed
                        (filter (\<lambda>w. termKey w \<noteq> termKey currentWord) (cc_missedWords c))
                        (saveHistory newHistory s'))
             else (let s' = s\<lparr>stats := (stats s)\<lparr>incorrect := incorrect (stats s) + 1\<rparr>,
                              lastIncorrectInSession := lastIncorrectInSession s @ [currentWord]\<rparr>
                   in if \<not> list_ex (\<lambda>w. termKey w = termKey currentWord) (cc_missedWords c)
                      then saveMissed (cc_missedWords c @ [currentWord]) s'
                      else s'));
          s2 =
            (if int (cc_currentWordIndex c) < int (length (cc_wordList c)) - 1
             then s1\<lparr>currentWordIndex := currentWordIndex s1 + 1\<rparr>
             else s1\<lparr>view := SUMMARY\<rparr>)
      in s2\<lparr>isProcessing := False\<rparr>)"

text \<open>
  \<open>handleQuizAnswer\<close>, the part that runs at the click. While \<open>isProcessing\<close> holds it
  returns at once. The result is \<open>None\<close> when \<open>quizQuestions[currentQuizIndex]\<close> is
  \<open>undefined\<close> (\<open>currentQuestion.word\<close> is a dereference of it); \<open>renderTesting\<close> reads
  \<open>q.word\<close> of the same question before any button exists.
\<close>

definition quizClosure :: "WordItem option \<Rightarrow> App \<Rightarrow> QuizClosure" where
  "quizClosure originalWord s =
     \<lparr>qc_originalWord = originalWord, qc_currentQuizIndex = currentQuizIndex s,
      qc_quizQuestions = quizQuestions s, qc_missedWords = missedWords s\<rparr>"

definition handleQuizAnswer :: "bool \<Rightarrow> App \<Rightarrow> App option" where
  "handleQuizAnswer isCorrect s =
     (if isProcessing s then Some s
      else (case at (quizQuestions s) (currentQuizIndex s) of
              None \<Rightarrow> None
            | Some currentQuestion \<Rightarrow>
                (let originalWord =
                       find (\<lambda>w. termKey w = toLowerCase (word currentQuestion)) (historyWords s)
                 in Some (s\<lparr>isProcessing := True,
                            timers := timers s @
                              [QuizTimer isCorrect (quizClosure originalWord s)]\<rparr>))))"

text \<open>The callback of \<open>handleQuizAnswer\<close>, run 800 ms later.\<close>

definition quizTimeout :: "bool \<Rightarrow> QuizClosure \<Rightarrow> App \<Rightarrow> App" where
  "quizTimeout isCorrect c s =
     (let s1 =
            (if isCorrect
             then s\<lparr>stats := (stats s)\<lparr>correct := correct (stats s) + 1\<rparr>\<rparr>
             else (let s' = s\<lparr>stats := (stats s)\<lparr>incorrect := incorrect (stats s) + 1\<rparr>\<rparr>
                   in (case qc_originalWord c of
                         None \<Rightarrow> s'
                       | Some originalWord \<Rightarrow>
                           (let s'' = s'\<lparr>lastIncorrectInSession :=
                                          lastIncorrectInSession s' @ [originalWord]\<rparr>
                            in if \<not> list_ex (\<lambda>w. termKey w = termKey originalWord)
                                       (qc_missedWords c)
                               then saveMissed (qc_missedWords c @ [originalWord]) s''
                               else s''))));
          s2 =
            (if int (qc_currentQuizIndex c) < int (length (qc_quizQuestions c)) - 1
             then s1\<lparr>currentQuizIndex := currentQuizIndex s1 + 1\<rparr>
             else s1\<lparr>view := SUMMARY\<rparr>)
      in s2\<lparr>isProcessing := False\<rparr>)"

text \<open>A pending timer runs its callback; the 3000 ms timer clears the error message.\<close>

fun runTimer :: "int \<Rightarrow> Timer \<Rightarrow> App \<Rightarrow> App" where
  "runTimer now (CardTimer success c) s = cardTimeout now success c s"
| "runTimer now (QuizTimer isCorrect c) s = quizTimeout isCorrect c s"
| "runTimer now ErrorTimer s = s\<lparr>errorMessage := None\<rparr>"

definition dropAt :: "nat \<Rightarrow> 'a list \<Rightarrow> 'a list" where
  "dropAt i xs = take i xs @ drop (Suc i) xs"

definition fireTimer :: "int \<Rightarrow> nat \<Rightarrow> App \<Rightarrow> App" where
  "fireTimer now i s =
     (case at (timers s) i of
        None \<Rightarrow> s
      | Some t \<Rightarrow> runTimer now t (s\<lparr>timers := dropAt i (timers s)\<rparr>))"

text \<open>
  A whole answer, as the specification describes it: the click, then its own timer
  (the one the click appended) before anything else happens.
\<close>

definition answerCard :: "int \<Rightarrow> bool \<Rightarrow> App \<Rightarrow> App option" where
  "answerCard now success s =
     map_option (fireTimer now (length (timers s))) (handleCardResult success s)"

definition answerQuiz :: "int \<Rightarrow> bool \<Rightarrow> App \<Rightarrow> App option" where
  "answerQuiz now isCorrect s =
     map_option (fireTimer now (length (timers s))) (handleQuizAnswer isCorrect s)"

section \<open>Events\<close>

text \<open>
  What can happen to the running component: a click on a control that the current view
  renders, the choice of a file in \<open>FileUpload\<close> (rendered on the landing view) and, later,
  the call of \<open>onUpload\<close> that ends its parse, a timer that fires, a response of the quiz
  service. \<open>FileParsed\<close> is the end of a parse as \<open>FileUpload\<close> does it, on the file as read
  and the clock readings of the parser; \<open>Upload\<close> is a call of \<open>onUpload\<close> with any items
  whatever, which is all that the type of \<open>onUpload\<close> promises to \<open>App\<close>. (\<open>FileUpload\<close> hides
  its inputs while it parses a file; the model lets a file be chosen whenever the landing
  view is shown, so it has every run of the component and more.) Each event comes with the clock reading \<open>now\<close> (\<open>Date.now()\<close>) of its handler;
  a handler that reads the clock more than once (\<open>startDemoLearning\<close>, \<open>handleUpload\<close>)
  gets the same reading each time, as when it runs within one millisecond.
  The buttons of the flashcard and the options of a quiz question carry
  \<open>disabled={isProcessing}\<close>: a disabled button delivers no click.
\<close>

datatype Event =
    ChooseFile
  | Upload nat "WordItem list" string SetType
  | FileParsed nat "nat \<Rightarrow> int" Source string
  | ClickReviewMissed
  | ClickWeeklyTest "WordItem list \<Rightarrow> WordItem list"
  | QuizResponse nat "QuizQuestion list option"
  | ClickSet nat
  | ClickDelete nat
  | ClickDemo
  | ClickBack
  | ClickCard bool
  | ClickOption nat
  | TimerFires nat
  | ClickReviewRound
  | ClickHome

text \<open>
  The call of \<open>onUpload\<close> that ends the parse of the file chosen as number \<open>i\<close> of those
  still being parsed.
\<close>

definition onUpload :: "nat \<Rightarrow> int \<Rightarrow> WordItem list \<Rightarrow> string \<Rightarrow> SetType \<Rightarrow> App \<Rightarrow> App" where
  "onUpload i now ws fileName ty s =
     (case at (pendingUploads s) i of
        None \<Rightarrow> s
      | Some renderLibrary \<Rightarrow>
          handleUpload renderLibrary now ws fileName ty
            (s\<lparr>pendingUploads := dropAt i (pendingUploads s)\<rparr>))"

fun step :: "int \<Rightarrow> Event \<Rightarrow> App \<Rightarrow> App" where
  "step now ChooseFile s =
     (if view s = LANDING then s\<lparr>pendingUploads := pendingUploads s @ [library s]\<rparr> else s)"
| "step now (Upload i ws fileName ty) s = onUpload i now ws fileName ty s"
| "step now (FileParsed i clock src fileName) s =
     (case parseFile clock src of
        None \<Rightarrow> s\<lparr>pendingUploads := dropAt i (pendingUploads s)\<rparr>
      | Some (ws, ty) \<Rightarrow> onUpload i now ws fileName ty s)"
| "step now ClickReviewMissed s =
     (if view s = LANDING \<and> length (missedWords s) > 0
      then startLearning now (missedWords s) s else s)"
| "step now (ClickWeeklyTest sortRandom) s =
     (if view s = LANDING then startWeeklyTest now sortRandom s else s)"
| "step now (QuizResponse i response) s =
     (case at (quizRequests s) i of
        None \<Rightarrow> s
      | Some ts \<Rightarrow> quizGenerated now response (s\<lparr>quizRequests := dropAt i (quizRequests s)\<rparr>))"
| "step now (ClickSet i) s =
     (if view s = LANDING
      then (case at (library s) i of None \<Rightarrow> s | Some st \<Rightarrow> startLearning now (words st) s)
      else s)"
| "step now (ClickDelete i) s =
     (if view s = LANDING
      then (case at (library s) i of None \<Rightarrow> s | Some st \<Rightarrow> deleteFromLibrary (id_s st) s)
      else s)"
| "step now ClickDemo s = (if view s = LANDING then startDemoLearning now s else s)"
| "step now ClickBack s =
     (if (view s = LEARNING \<and> at (wordList s) (currentWordIndex s) \<noteq> None) \<or> view s = TESTING
      then s\<lparr>view := LANDING\<rparr> else s)"
| "step now (ClickCard success) s =
     (if view s = LEARNING \<and> \<not> isProcessing s
      then (case handleCardResult success s of None \<Rightarrow> s | Some s' \<Rightarrow> s')
      else s)"
| "step now (ClickOption k) s =
     (if view s = TESTING \<and> \<not> isProcessing s
      then (case at (quizQuestions s) (currentQuizIndex s) of
              None \<Rightarrow> s
            | Some q \<Rightarrow>
                (case at (options q) k of
                   None \<Rightarrow> s
                 | Some option \<Rightarrow>
                     (case handleQuizAnswer (option = correctAnswer q) s of
                        None \<Rightarrow> s
                      | Some s' \<Rightarrow> s')))
      else s)"
| "step now (TimerFires i) s = fireTimer now i s"
| "step now ClickReviewRound s =
     (if view s = SUMMARY \<and> length (lastIncorrectInSession s) > 0
      then startLearning now (lastIncorrectInSession s) s else s)"
| "step now ClickHome s =
     (if view s = SUMMARY then s\<lparr>quizQuestions := [], view := LANDING\<rparr> else s)"

fun run :: "(int \<times> Event) list \<Rightarrow> App \<Rightarrow> App" where
  "run [] s = s"
| "run ((now, e) # es) s = run es (step now e s)"

section \<open>Notions of the specification\<close>

text \<open>
  The deduplication as the specification words it: the first occurrence of a case-folded
  term is kept, every later item with the same case-folded term is discarded.
\<close>

fun firstOccurrences :: "WordItem list \<Rightarrow> WordItem list" where
  "firstOccurrences [] = []"
| "firstOccurrences (w # ws) =
     w # firstOccurrences (filter (\<lambda>x. termKey x \<noteq> termKey w) ws)"

text \<open>Sequential calls of \<open>saveToLibrary\<close>, first set first.\<close>

fun saveAll :: "StudySet list \<Rightarrow> App \<Rightarrow> App" where
  "saveAll [] s = s"
| "saveAll (st # sts) s = saveAll sts (saveToLibrary st s)"

text \<open>A collection holds a case-folded term at most once; a term is in a collection.\<close>

definition uniqueTerms :: "WordItem list \<Rightarrow> bool" where
  "uniqueTerms ws = distinct (map termKey ws)"

definition hasTerm :: "string \<Rightarrow> WordItem list \<Rightarrow> bool" where
  "hasTerm t ws = list_ex (\<lambda>w. termKey w = toLowerCase t) ws"

definition countTerm :: "string \<Rightarrow> WordItem list \<Rightarrow> nat" where
  "countTerm t ws = length (filter (\<lambda>w. termKey w = toLowerCase t) ws)"

definition collectionsUnique :: "App \<Rightarrow> bool" where
  "collectionsUnique s =
     (uniqueTerms (historyWords s) \<and> uniqueTerms (missedWords s) \<and> uniqueTerms (wordList s))"

text \<open>
  The lists a pending callback will write back are part of the state the invariant
  speaks of.
\<close>

fun timerUnique :: "Timer \<Rightarrow> bool" where
  "timerUnique (CardTimer success c) =
     (uniqueTerms (cc_missedWords c) \<and> uniqueTerms (cc_historyWords c))"
| "timerUnique (QuizTimer isCorrect c) = uniqueTerms (qc_missedWords c)"
| "timerUnique ErrorTimer = True"

definition uniqueInv :: "App \<Rightarrow> bool" where
  "uniqueInv s = (collectionsUnique s \<and> list_all timerUnique (timers s))"

text \<open>An answer is in flight while its timer is pending.\<close>

fun isAnswerTimer :: "Timer \<Rightarrow> bool" where
  "isAnswerTimer (CardTimer success c) = True"
| "isAnswerTimer (QuizTimer isCorrect c) = True"
| "isAnswerTimer ErrorTimer = False"

definition answersInFlight :: "App \<Rightarrow> nat" where
  "answersInFlight s = length (filter isAnswerTimer (timers s))"

definition latchInv :: "App \<Rightarrow> bool" where
  "latchInv s = (answersInFlight s = (if isProcessing s then 1 else 0))"

text \<open>Reading a decimal numeral back; used to show that \<open>showNat\<close> is injective.\<close>

definition isDigit :: "char \<Rightarrow> bool" where
  "isDigit c = (c \<in> set ''0123456789'')"

definition digitVal :: "char \<Rightarrow> nat" where
  "digitVal c = length (takeWhile (\<lambda>d. d \<noteq> c) ''0123456789'')"

definition readNat :: "string \<Rightarrow> nat" where
  "readNat cs = foldl (\<lambda>a c. 10 * a + digitVal c) 0 cs"

text \<open>
  The ids of a list of items are pairwise distinct; every item of a list has mastery
  level 0.
\<close>

definition distinctIds :: "WordItem list \<Rightarrow> bool" where
  "distinctIds ws = distinct (map id_w ws)"

definition zeroMastery :: "WordItem list \<Rightarrow> bool" where
  "zeroMastery ws = list_all (\<lambda>w. masteryLevel w = 0) ws"

text \<open>
  Every item the component holds: in its state cells, in the sets of its library and of
  the libraries that pending uploads will write back, and in the variables that the
  pending callbacks read.
\<close>

fun timerItems :: "Timer \<Rightarrow> WordItem list" where
  "timerItems (CardTimer success c) =
     cc_currentWord c # cc_wordList c @ cc_missedWords c @ cc_historyWords c"
| "timerItems (QuizTimer isCorrect c) =
     (case qc_originalWord c of None \<Rightarrow> [] | Some w \<Rightarrow> [w]) @ qc_missedWords c"
| "timerItems ErrorTimer = []"

definition libraryItems :: "StudySet list \<Rightarrow> WordItem list" where
  "libraryItems sets = concat (map words sets)"

definition allItems :: "App \<Rightarrow> WordItem list" where
  "allItems s =
     wordList s @ missedWords s @ historyWords s @ lastIncorrectInSession s
     @ libraryItems (library s) @ concat (map libraryItems (pendingUploads s))
     @ concat (map timerItems (timers s))"

definition distinctSets :: "StudySet list \<Rightarrow> bool" where
  "distinctSets sets = list_all (\<lambda>st. distinctIds (words st)) sets"

text \<open>
  The invariant of the runs in which every call of \<open>onUpload\<close> is made by \<open>FileUpload\<close>:
  every item has mastery level 0, and the ids within a saved set are pairwise distinct.
\<close>

definition ingestInv :: "App \<Rightarrow> bool" where
  "ingestInv s =
     (zeroMastery (allItems s) \<and> distinctSets (library s)
      \<and> list_all distinctSets (pendingUploads s))"

fun fromParser :: "Event \<Rightarrow> bool" where
  "fromParser (Upload i ws fileName ty) = False"
| "fromParser e = True"

definition parsedUploads :: "(int \<times> Event) list \<Rightarrow> bool" where
  "parsedUploads es = list_all (\<lambda>(now, e). fromParser e) es"

section \<open>Example inputs\<close>

text \<open>The words of the scenario of the specification: \<open>apple\<close>, \<open>Apple\<close>, \<open>banana\<close>.\<close>

definition exampleWords :: "WordItem list" where
  "exampleWords =
     [wordItem ''word-0-1'' ''apple'', wordItem ''word-1-1'' ''Apple'',
      wordItem ''word-2-1'' ''banana'']"

text \<open>
  A CSV file with a header line, a line with a definition, the three words of the
  scenario, an empty line, and both kinds of line ends; the items \<open>parseTextOrCsv\<close> builds
  from it when the clock reads 1; and a run in which the file is chosen and parsed, and
  the learner goes back to the landing view.
\<close>

definition exampleFile :: string where
  "exampleFile =
     ''Term,Definition'' @ [CHR 0x0D, CHR 0x0A] @ ''apple, a fruit'' @ [CHR 0x0A]
     @ ''Apple'' @ [CHR 0x0A, CHR 0x0A] @ ''  banana'' @ [CHR 0x0A]"

definition exampleBatch :: "WordItem list" where
  "exampleBatch =
     [(wordItem ''word-1-1'' ''apple'')\<lparr>definition_w := Some ''a fruit''\<rparr>,
      wordItem ''word-2-1'' ''Apple'', wordItem ''word-3-1'' ''banana'']"

definition uploadRun :: "(int \<times> Event) list" where
  "uploadRun =
     [(1000, ChooseFile), (2000, FileParsed 0 (\<lambda>i. 1) (TextFile exampleFile) ''list.csv''),
      (3000, ClickBack)]"

definition exampleSet :: StudySet where
  "exampleSet =
     \<lparr>id_s = ''set-2000'', name = ''list.csv'', wordCount = 3, words = exampleBatch,
      type_s = TEXT, createdAt = 2000\<rparr>"

text \<open>Twenty-one study sets with the names \<open>list-1.txt\<close> to \<open>list-21.txt\<close>.\<close>

definition numberedSet :: "nat \<Rightarrow> StudySet" where
  "numberedSet n =
     \<lparr>id_s = ''set-'' @ showNat n, name = ''list-'' @ showNat n @ ''.txt'', wordCount = 0,
      words = [], type_s = TEXT, createdAt = int n\<rparr>"

definition exampleSets :: "StudySet list" where
  "exampleSets = map numberedSet [1..<22]"

text \<open>A learning session on the three example words, before the first answer.\<close>

definition learningSession :: App where
  "learningSession = startLearning 0 exampleWords initialApp"

text \<open>
  A quiz session reached from the initial state: the demo is started, its first word
  (\<open>Environment\<close>) is answered "not remembered", the learner goes back, opens the weekly
  test, and the quiz service answers with one question on \<open>Environment\<close>, whose first
  option is the correct one.
\<close>

definition exampleQuestion :: QuizQuestion where
  "exampleQuestion =
     \<lparr>word = ''Environment'', correctAnswer = ''surroundings'',
      options = [''surroundings'', ''government'', ''experiment'', ''equipment''],
      context_q = Some ''We must protect the ___.''\<rparr>"

definition quizSession :: App where
  "quizSession =
     run [(1000, ClickDemo), (2000, ClickCard False), (2400, TimerFires 0), (3000, ClickBack),
          (4000, ClickWeeklyTest (\<lambda>ws. ws)), (5000, QuizResponse 0 (Some [exampleQuestion]))]
       initialApp"

text \<open>
  Two states whose History holds two and three of the demo words, memorized at time
  1700000000000.
\<close>

definition twoRecent :: App where
  "twoRecent =
     saveHistory (map (\<lambda>w. w\<lparr>lastMemorizedAt := Some 1700000000000\<rparr>) (take 2 DEMO_WORDS))
       initialApp"

definition threeRecent :: App where
  "threeRecent =
     saveHistory (map (\<lambda>w. w\<lparr>lastMemorizedAt := Some 1700000000000\<rparr>) (take 3 DEMO_WORDS))
       initialApp"



section \<open>Deduplication at the start of a session\<close>

lemma set_firstOccurrences: "set (firstOccurrences ws) \<subseteq> set ws"
  by (induction ws rule: firstOccurrences.induct) auto

lemma foldl_Set_add_keys:
  "foldl Set_add acc (map termKey ws) =
     acc @ map termKey (firstOccurrences (filter (\<lambda>w. termKey w \<notin> set acc) ws))"
proof (induction ws arbitrary: acc)
  case Nil
  show ?case by simp
next
  case (Cons w ws)
  show ?case
  proof (cases "termKey w \<in> set acc")
    case True
    then show ?thesis using Cons.IH[of acc] by (simp add: Set_add_def)
  next
    case False
    have "filter (\<lambda>x. termKey x \<noteq> termKey w) (filter (\<lambda>x. termKey x \<notin> set acc) ws)
          = filter (\<lambda>x. termKey x \<notin> set (acc @ [termKey w])) ws"
      by (auto intro: filter_cong)
    with False show ?thesis using Cons.IH[of "acc @ [termKey w]"] by (simp add: Set_add_def)
  qed
qed

lemma newSet_keys: "newSet (map termKey ws) = map termKey (firstOccurrences ws)"
  using foldl_Set_add_keys[of "[]" ws] by (simp add: newSet_def)

lemma find_filter_weaker:
  "(\<And>x. P x \<Longrightarrow> Q x) \<Longrightarrow> find P (filter Q xs) = find P xs"
  by (induction xs) auto

lemma find_firstOccurrences:
  "w \<in> set (firstOccurrences ws) \<Longrightarrow> find (\<lambda>x. termKey x = termKey w) ws = Some w"
proof (induction ws rule: firstOccurrences.induct)
  case 1
  then show ?case by simp
next
  case (2 v ws)
  show ?case
  proof (cases "termKey v = termKey w")
    case True
    have "w \<notin> set (firstOccurrences (filter (\<lambda>x. termKey x \<noteq> termKey v) ws))"
      using set_firstOccurrences[of "filter (\<lambda>x. termKey x \<noteq> termKey v) ws"] True by auto
    with "2.prems" have "w = v" by simp
    with True show ?thesis by simp
  next
    case False
    with "2.prems" have m: "w \<in> set (firstOccurrences (filter (\<lambda>x. termKey x \<noteq> termKey v) ws))"
      by auto
    have "find (\<lambda>x. termKey x = termKey w) (filter (\<lambda>x. termKey x \<noteq> termKey v) ws)
          = find (\<lambda>x. termKey x = termKey w) ws"
      using False by (intro find_filter_weaker) auto
    with "2.IH"[OF m] False show ?thesis by simp
  qed
qed

lemma uniqueWords_firstOccurrences: "uniqueWords ws = firstOccurrences ws"
proof -
  have "map (\<lambda>t. the (find (\<lambda>w. termKey w = t) ws)) (map termKey (firstOccurrences ws))
        = firstOccurrences ws"
    by (simp add: map_idI find_firstOccurrences)
  then show ?thesis by (simp add: uniqueWords_def newSet_keys)
qed

lemma distinct_firstOccurrences: "distinct (map termKey (firstOccurrences ws))"
proof (induction ws rule: firstOccurrences.induct)
  case 1 show ?case by simp
next
  case (2 w ws)
  have "termKey w \<notin> termKey ` set (firstOccurrences (filter (\<lambda>x. termKey x \<noteq> termKey w) ws))"
    using set_firstOccurrences[of "filter (\<lambda>x. termKey x \<noteq> termKey w) ws"] by auto
  with 2 show ?case by simp
qed

lemma keys_firstOccurrences: "set (map termKey (firstOccurrences ws)) = set (map termKey ws)"
proof (induction ws rule: firstOccurrences.induct)
  case 1 show ?case by simp
next
  case (2 w ws)
  then show ?case by auto
qed

lemma subseq_firstOccurrences: "subseq (firstOccurrences ws) ws"
proof (induction ws rule: firstOccurrences.induct)
  case 1 show ?case by simp
next
  case (2 w ws)
  have "subseq (filter (\<lambda>x. termKey x \<noteq> termKey w) ws) ws" by simp
  with 2 show ?case by (auto intro: subseq_order.trans)
qed


text \<open>
  Claim C4. For every input of \<open>startLearning\<close>, the word list of the session is
  \<open>uniqueWords\<close> of the input, and that list is the list of first occurrences: no two of
  its items share a case-folded term, every case-folded term of the input is the term of
  one of its items, each of its items is the first item of the input with its
  case-folded term, and its items stand in the order they have in the input.
\<close>

theorem uniqueWords_first_occurrence:
  "wordList (startLearning now ws s) = uniqueWords ws
   \<and> uniqueWords ws = firstOccurrences ws
   \<and> distinct (map termKey (uniqueWords ws))
   \<and> set (map termKey (uniqueWords ws)) = set (map termKey ws)
   \<and> (\<forall>w\<in>set (uniqueWords ws). find (\<lambda>x. termKey x = termKey w) ws = Some w)
   \<and> subseq (uniqueWords ws) ws"
proof -
  have "wordList (startLearning now ws s) = uniqueWords ws"
    by (simp add: startLearning_def Let_def)
  moreover have "\<forall>w\<in>set (firstOccurrences ws). find (\<lambda>x. termKey x = termKey w) ws = Some w"
    using find_firstOccurrences by blast
  ultimately show ?thesis
    using distinct_firstOccurrences[of ws] keys_firstOccurrences[of ws]
      subseq_firstOccurrences[of ws]
    by (simp only: uniqueWords_firstOccurrences simp_thms)
qed

lemma uniqueWords_exampleWords:
  "uniqueWords exampleWords = [wordItem ''word-0-1'' ''apple'', wordItem ''word-2-1'' ''banana'']"
  by code_simp

theorem uniqueWords_first_occurrence_witness:
  "uniqueWords exampleWords = [wordItem ''word-0-1'' ''apple'', wordItem ''word-2-1'' ''banana'']
   \<and> find (\<lambda>x. termKey x = termKey (wordItem ''word-2-1'' ''banana'')) exampleWords
       = Some (wordItem ''word-2-1'' ''banana'')"
proof -
  have "wordItem ''word-2-1'' ''banana'' \<in> set (uniqueWords exampleWords)"
    by (simp add: uniqueWords_exampleWords)
  with uniqueWords_first_occurrence[of 0 exampleWords initialApp] uniqueWords_exampleWords
  show ?thesis by blast
qed

section \<open>The library\<close>

lemma mountApp_after_saves:
  "vocab_boost_missed_words s = Some (missedWords s) \<Longrightarrow>
   vocab_boost_history_words s = Some (historyWords s) \<Longrightarrow>
   vocab_boost_library_v1 s = Some (library s) \<Longrightarrow> mountApp s = s"
  by (simp add: mountApp_def)

lemma library_saveToLibrary:
  "library (saveToLibrary st s) = take 20 (st # filter (\<lambda>item. name item \<noteq> name st) (library s))"
  by (simp add: saveToLibrary_def Let_def)

lemma saveAll_snoc: "saveAll (sts @ [st]) s = saveToLibrary st (saveAll sts s)"
  by (induction sts arbitrary: s) simp_all

lemma take_cons_take: "take 20 (x # filter P (take 20 (xs @ rest))) = take 20 (x # xs @ filter P (take (20 - length xs) rest))"
  if "\<forall>y\<in>set xs. P y"
proof -
  have "filter P (take 20 (xs @ rest)) = take 20 xs @ filter P (take (20 - length xs) rest)"
    using that by (auto simp add: filter_id_conv dest: in_set_takeD)
  then show ?thesis by (cases "length xs < 20") (simp_all add: numeral_eq_Suc)
qed

lemma library_saveAll:
  "distinct (map name sts) \<Longrightarrow> sts \<noteq> [] \<Longrightarrow> \<exists>rest. library (saveAll sts s) = take 20 (rev sts @ rest)"
proof (induction sts rule: rev_induct)
  case Nil
  then show ?case by simp
next
  case (snoc st sts)
  show ?case
  proof (cases "sts = []")
    case True
    then show ?thesis by (auto simp add: library_saveToLibrary)
  next
    case False
    with snoc obtain rest where r: "library (saveAll sts s) = take 20 (rev sts @ rest)" by auto
    have "name st \<notin> name ` set sts" using snoc.prems(1) by simp
    then have P: "\<forall>y\<in>set (rev sts). name y \<noteq> name st" by (metis imageI set_rev)
    show ?thesis
      unfolding saveAll_snoc library_saveToLibrary r
      using take_cons_take[OF P, of st rest] by auto
  qed
qed

lemma library_saveAll_full:
  assumes "distinct (map name sts)" "20 \<le> length sts"
  shows "library (saveAll sts s) = take 20 (rev sts)"
proof -
  from assms have "sts \<noteq> []" by auto
  from library_saveAll[OF assms(1) this] obtain rest where
    "library (saveAll sts s) = take 20 (rev sts @ rest)" by blast
  with assms(2) show ?thesis by simp
qed

lemma one_entry: "filter (\<lambda>item. name item = name st) (library (saveToLibrary st s)) = [st]"
proof -
  have "filter (\<lambda>item. name item = name st) (take n (filter (\<lambda>item. name item \<noteq> name st) xs)) = []" for n xs
    by (auto simp add: filter_empty_conv dest: in_set_takeD)
  then show ?thesis by (simp add: library_saveToLibrary numeral_eq_Suc)
qed



text \<open>
  Claim C3. \<open>saveToLibrary\<close> removes every set with the name of the new one, puts the new
  set first and keeps the first 20 entries (the stored copy is the same list); afterwards
  exactly one entry has that name, the new one; and after 21 calls with pairwise distinct
  names the library holds 20 sets, the last 20 saved, newest first, without the name
  saved first.
\<close>

theorem saveToLibrary_upsert_capacity:
  "library (saveToLibrary st s) =
     take 20 (st # filter (\<lambda>item. name item \<noteq> name st) (library s))
   \<and> vocab_boost_library_v1 (saveToLibrary st s) = Some (library (saveToLibrary st s))
   \<and> filter (\<lambda>item. name item = name st) (library (saveToLibrary st s)) = [st]
   \<and> length (library (saveToLibrary st s)) \<le> 20
   \<and> (distinct (map name sts) \<and> length sts = 21 \<longrightarrow>
        length (library (saveAll sts s)) = 20
        \<and> name (hd sts) \<notin> set (map name (library (saveAll sts s)))
        \<and> library (saveAll sts s) = rev (tl sts))"
proof -
  have five: "distinct (map name sts) \<and> length sts = 21 \<longrightarrow>
        length (library (saveAll sts s)) = 20
        \<and> name (hd sts) \<notin> set (map name (library (saveAll sts s)))
        \<and> library (saveAll sts s) = rev (tl sts)"
  proof (intro impI)
    assume a: "distinct (map name sts) \<and> length sts = 21"
    then obtain x xs where sts: "sts = x # xs" by (cases sts) auto
    with a have len: "length xs = 20" by simp
    from a have "library (saveAll sts s) = take 20 (rev sts)"
      by (intro library_saveAll_full) auto
    with sts len have lib: "library (saveAll sts s) = rev xs" by simp
    from a sts have "name x \<notin> set (map name xs)" by simp
    with lib sts len show "length (library (saveAll sts s)) = 20
        \<and> name (hd sts) \<notin> set (map name (library (saveAll sts s)))
        \<and> library (saveAll sts s) = rev (tl sts)" by simp
  qed
  have four: "length (library (saveToLibrary st s)) \<le> 20"
    by (simp add: library_saveToLibrary)
  have two: "vocab_boost_library_v1 (saveToLibrary st s) = Some (library (saveToLibrary st s))"
    by (simp add: saveToLibrary_def Let_def)
  from library_saveToLibrary one_entry two four five show ?thesis by blast
qed

lemma names_exampleSets: "distinct (map name exampleSets) \<and> length exampleSets = 21"
  by (simp add: exampleSets_def numberedSet_def upt_rec showNat.simps digitChar_def)

theorem saveToLibrary_upsert_capacity_witness:
  "length (library (saveAll exampleSets initialApp)) = 20
   \<and> name (hd exampleSets) \<notin> set (map name (library (saveAll exampleSets initialApp)))"
  using saveToLibrary_upsert_capacity[where s = initialApp and sts = exampleSets]
    names_exampleSets by blast

text \<open>
  An upload saves into the library of the render in which its file was chosen: a set
  that is deleted while the file is parsed is back in the library after the upload.
\<close>

lemma upload_restores_deleted_set:
  "map name (library (run [(1000, ClickDemo), (2000, ClickBack), (3000, ChooseFile),
                           (4000, ClickDelete 0)] initialApp)) = []
   \<and> map name (library (run [(1000, ClickDemo), (2000, ClickBack), (3000, ChooseFile),
                             (4000, ClickDelete 0),
                             (5000, Upload 0 exampleWords ''list.txt'' TEXT)] initialApp))
       = [''list.txt'', demoSetName]"
proof -
  have "uniqueWords DEMO_WORDS \<noteq> []" by code_simp
  then show ?thesis
    by (simp add: initialApp_def startDemoLearning_def saveHistory_def saveToLibrary_def
        startLearning_def deleteFromLibrary_def onUpload_def handleUpload_def at_def dropAt_def
        Let_def demoSetName_def)
qed

section \<open>Committing an answer\<close>

lemma at_snoc_length: "at (xs @ [x]) (length xs) = Some x"
  by (simp add: at_def)

lemma dropAt_snoc_length: "dropAt (length xs) (xs @ [x]) = xs"
  by (simp add: dropAt_def)

lemma answerCard_eq:
  "at (wordList s) (currentWordIndex s) = Some w \<Longrightarrow>
   answerCard now success s =
     Some (cardTimeout now success (cardClosure w s) (s\<lparr>isProcessing := True\<rparr>))"
  by (simp add: answerCard_def handleCardResult_def fireTimer_def at_snoc_length
      dropAt_snoc_length)

lemma answerCard_None:
  "at (wordList s) (currentWordIndex s) = None \<Longrightarrow> answerCard now success s = None"
  by (simp add: answerCard_def handleCardResult_def)

lemma historyWords_cardTimeout_True:
  "historyWords (cardTimeout now True c s) =
     take 500 ((cc_currentWord c)\<lparr>lastMemorizedAt := Some now\<rparr> #
       filter (\<lambda>x. termKey x \<noteq> termKey (cc_currentWord c)) (cc_historyWords c))"
  by (simp add: cardTimeout_def Let_def saveMissed_def saveHistory_def)

lemma missedWords_cardTimeout_True:
  "missedWords (cardTimeout now True c s) =
     filter (\<lambda>x. termKey x \<noteq> termKey (cc_currentWord c)) (cc_missedWords c)"
  by (simp add: cardTimeout_def Let_def saveMissed_def saveHistory_def)

lemma stored_cardTimeout_True:
  "vocab_boost_history_words (cardTimeout now True c s) = Some (historyWords (cardTimeout now True c s))
   \<and> vocab_boost_missed_words (cardTimeout now True c s) = Some (missedWords (cardTimeout now True c s))"
  by (simp add: cardTimeout_def Let_def saveMissed_def saveHistory_def)



lemma closure_simps:
  "cc_currentWord (cardClosure w s) = w"
  "cc_missedWords (cardClosure w s) = missedWords s"
  "cc_historyWords (cardClosure w s) = historyWords s"
  "cc_wordList (cardClosure w s) = wordList s"
  "cc_currentWordIndex (cardClosure w s) = currentWordIndex s"
  by (simp_all add: cardClosure_def)

lemma countTerm_after_correct:
  "countTerm (term_w w) (take 500 (w\<lparr>lastMemorizedAt := Some now\<rparr> #
       filter (\<lambda>x. termKey x \<noteq> termKey w) h)) = 1"
proof -
  have "filter (\<lambda>x. termKey x = termKey w) (take n (filter (\<lambda>x. termKey x \<noteq> termKey w) h)) = []" for n
    by (auto simp add: filter_empty_conv dest: in_set_takeD)
  then show ?thesis by (simp add: countTerm_def numeral_eq_Suc)
qed

lemma hasTerm_filtered: "\<not> hasTerm (term_w w) (filter (\<lambda>x. termKey x \<noteq> termKey w) m)"
  by (simp add: hasTerm_def list_ex_iff)

lemma answerQuiz_latched: "isProcessing s \<Longrightarrow> answerQuiz now isCorrect s = Some s"
  by (simp add: answerQuiz_def handleQuizAnswer_def fireTimer_def at_def)

lemma answerQuiz_None:
  "\<not> isProcessing s \<Longrightarrow> at (quizQuestions s) (currentQuizIndex s) = None \<Longrightarrow>
   answerQuiz now isCorrect s = None"
  by (simp add: answerQuiz_def handleQuizAnswer_def)

lemma answerCard_correct:
  assumes "at (wordList s) (currentWordIndex s) = Some w"
  shows "\<exists>s'. answerCard now True s = Some s'
     \<and> historyWords s' =
         take 500 (w\<lparr>lastMemorizedAt := Some now\<rparr> #
           filter (\<lambda>x. termKey x \<noteq> termKey w) (historyWords s))
     \<and> length (historyWords s') \<le> 500
     \<and> missedWords s' = filter (\<lambda>x. termKey x \<noteq> termKey w) (missedWords s)
     \<and> vocab_boost_history_words s' = Some (historyWords s')
     \<and> vocab_boost_missed_words s' = Some (missedWords s')
     \<and> \<not> hasTerm (term_w w) (missedWords s')
     \<and> countTerm (term_w w) (historyWords s') = 1"
proof -
  let ?s' = "cardTimeout now True (cardClosure w s) (s\<lparr>isProcessing := True\<rparr>)"
  have h: "historyWords ?s' = take 500 (w\<lparr>lastMemorizedAt := Some now\<rparr> #
           filter (\<lambda>x. termKey x \<noteq> termKey w) (historyWords s))"
    by (simp add: historyWords_cardTimeout_True closure_simps)
  have m: "missedWords ?s' = filter (\<lambda>x. termKey x \<noteq> termKey w) (missedWords s)"
    by (simp add: missedWords_cardTimeout_True closure_simps)
  have "length (historyWords ?s') \<le> 500" by (simp add: h)
  moreover have "\<not> hasTerm (term_w w) (missedWords ?s')" by (simp only: m hasTerm_filtered simp_thms)
  moreover have "countTerm (term_w w) (historyWords ?s') = 1" by (simp only: h countTerm_after_correct)
  ultimately show ?thesis
    using answerCard_eq[OF assms, of now True] h m stored_cardTimeout_True[of now "cardClosure w s" "s\<lparr>isProcessing := True\<rparr>"]
    by blast
qed

lemma uniqueWords_single: "uniqueWords [w] = [w]"
  by (simp add: uniqueWords_def newSet_def Set_add_def)

lemma at_startLearning_single:
  "at (wordList (startLearning t [w] s)) (currentWordIndex (startLearning t [w] s)) = Some w"
  by (simp add: startLearning_def Let_def uniqueWords_single at_def)

lemma correct_incorrect_correct:
  "\<exists>s1 s2 s3.
      answerCard t1 True (startLearning t0 [w] s) = Some s1
    \<and> answerCard t3 False (startLearning t2 [w] s1) = Some s2
    \<and> answerCard t5 True (startLearning t4 [w] s2) = Some s3
    \<and> \<not> hasTerm (term_w w) (missedWords s3)
    \<and> countTerm (term_w w) (historyWords s3) = 1"
proof -
  from answerCard_correct[OF at_startLearning_single, of t1 t0 w s]
  obtain s1 where 1: "answerCard t1 True (startLearning t0 [w] s) = Some s1" by blast
  from answerCard_eq[OF at_startLearning_single, of t3 False t2 w s1]
  obtain s2 where 2: "answerCard t3 False (startLearning t2 [w] s1) = Some s2" by blast
  from answerCard_correct[OF at_startLearning_single, of t5 t4 w s2]
  obtain s3 where 3: "answerCard t5 True (startLearning t4 [w] s2) = Some s3"
    "\<not> hasTerm (term_w w) (missedWords s3)" "countTerm (term_w w) (historyWords s3) = 1"
    by blast
  from 1 2 3 show ?thesis by blast
qed

lemma answerQuiz_eq:
  "\<not> isProcessing s \<Longrightarrow> at (quizQuestions s) (currentQuizIndex s) = Some q \<Longrightarrow>
   answerQuiz now isCorrect s =
     Some (quizTimeout isCorrect
             (quizClosure (find (\<lambda>w. termKey w = toLowerCase (word q)) (historyWords s)) s)
             (s\<lparr>isProcessing := True\<rparr>))"
  by (simp add: answerQuiz_def handleQuizAnswer_def fireTimer_def at_snoc_length
      dropAt_snoc_length Let_def)







text \<open>
  The scenario of the specification, run on the model: in the session on \<open>apple\<close>,
  \<open>Apple\<close>, \<open>banana\<close> the first card is answered "not remembered" and the second
  "remembered".
\<close>

lemma scenario_apple_banana:
  "map term_w (wordList learningSession) = [''apple'', ''banana'']
   \<and> stats (run [(1000, ClickCard False), (1400, TimerFires 0),
                   (2000, ClickCard True), (2400, TimerFires 0)] learningSession)
       = \<lparr>total_st = 2, correct = 1, incorrect = 1, wordCount_st = 2, startTime = 0\<rparr>
   \<and> map term_w (missedWords (run [(1000, ClickCard False), (1400, TimerFires 0),
                   (2000, ClickCard True), (2400, TimerFires 0)] learningSession)) = [''apple'']
   \<and> map term_w (historyWords (run [(1000, ClickCard False), (1400, TimerFires 0),
                   (2000, ClickCard True), (2400, TimerFires 0)] learningSession)) = [''banana'']
   \<and> view (run [(1000, ClickCard False), (1400, TimerFires 0),
                   (2000, ClickCard True), (2400, TimerFires 0)] learningSession) = SUMMARY"
  by code_simp

text \<open>
  Claim C2. When the current word \<open>w\<close> of a learning session is answered "remembered",
  the answer is committed: History becomes \<open>w\<close>, stamped with the time of the commit, in
  front of the prior History without the entries of the same case-folded term, cut to its
  first 500 entries; MissedSet loses the entries of that term; both lists are stored.
  The term is then absent from MissedSet and occurs once in History. In particular this
  holds after the word was answered "remembered", then "not remembered", then
  "remembered" again (each time as the word of a session on it).
\<close>

theorem answerCard_correct_records:
  "(at (wordList s) (currentWordIndex s) = Some w \<longrightarrow>
      (\<exists>s'. answerCard now True s = Some s'
         \<and> historyWords s' =
             take 500 (w\<lparr>lastMemorizedAt := Some now\<rparr> #
               filter (\<lambda>x. termKey x \<noteq> termKey w) (historyWords s))
         \<and> length (historyWords s') \<le> 500
         \<and> missedWords s' = filter (\<lambda>x. termKey x \<noteq> termKey w) (missedWords s)
         \<and> vocab_boost_history_words s' = Some (historyWords s')
         \<and> vocab_boost_missed_words s' = Some (missedWords s')
         \<and> \<not> hasTerm (term_w w) (missedWords s')
         \<and> countTerm (term_w w) (historyWords s') = 1))
   \<and> (\<exists>s1 s2 s3.
         answerCard t1 True (startLearning t0 [w] s) = Some s1
       \<and> answerCard t3 False (startLearning t2 [w] s1) = Some s2
       \<and> answerCard t5 True (startLearning t4 [w] s2) = Some s3
       \<and> \<not> hasTerm (term_w w) (missedWords s3)
       \<and> countTerm (term_w w) (historyWords s3) = 1)"
  using answerCard_correct[of s w now] correct_incorrect_correct[of t1 t0 w s t3 t2 t5 t4]
  by blast

lemma at_learningSession:
  "at (wordList learningSession) (currentWordIndex learningSession)
     = Some (wordItem ''word-0-1'' ''apple'')"
  by code_simp

theorem answerCard_correct_records_witness:
  "at (wordList learningSession) (currentWordIndex learningSession)
     = Some (wordItem ''word-0-1'' ''apple'')
   \<and> (\<exists>s'. answerCard 1000 True learningSession = Some s'
         \<and> historyWords s' = [(wordItem ''word-0-1'' ''apple'')\<lparr>lastMemorizedAt := Some 1000\<rparr>]
         \<and> missedWords s' = []
         \<and> countTerm ''apple'' (historyWords s') = 1)"
proof -
  have h: "historyWords learningSession = []" "missedWords learningSession = []"
    by code_simp+
  have t: "term_w (wordItem ''word-0-1'' ''apple'') = ''apple''"
    by (simp add: wordItem_def)
  from answerCard_correct_records[where s = learningSession and now = 1000
      and w = "wordItem ''word-0-1'' ''apple''"] at_learningSession
  obtain s' where "answerCard 1000 True learningSession = Some s'"
    "historyWords s' =
       take 500 ((wordItem ''word-0-1'' ''apple'')\<lparr>lastMemorizedAt := Some 1000\<rparr> #
         filter (\<lambda>x. termKey x \<noteq> termKey (wordItem ''word-0-1'' ''apple''))
           (historyWords learningSession))"
    "missedWords s' =
       filter (\<lambda>x. termKey x \<noteq> termKey (wordItem ''word-0-1'' ''apple''))
         (missedWords learningSession)"
    "countTerm (term_w (wordItem ''word-0-1'' ''apple'')) (historyWords s') = 1"
    by blast
  with at_learningSession show ?thesis by (simp add: h t)
qed


lemma at_quizSession:
  "\<not> isProcessing quizSession
   \<and> at (quizQuestions quizSession) (currentQuizIndex quizSession) = Some exampleQuestion"
  by code_simp



section \<open>One entry per term\<close>

lemma uniqueTerms_uniqueWords: "uniqueTerms (uniqueWords ws)"
  by (simp add: uniqueTerms_def uniqueWords_firstOccurrences distinct_firstOccurrences)

lemma uniqueTerms_filter: "uniqueTerms ws \<Longrightarrow> uniqueTerms (filter P ws)"
  by (simp add: uniqueTerms_def distinct_map_filter)

lemma uniqueTerms_take: "uniqueTerms ws \<Longrightarrow> uniqueTerms (take n ws)"
  by (simp add: uniqueTerms_def take_map[symmetric])

lemma uniqueTerms_replace:
  "uniqueTerms h \<Longrightarrow> termKey u = termKey w \<Longrightarrow>
   uniqueTerms (u # filter (\<lambda>x. termKey x \<noteq> termKey w) h)"
  by (auto simp add: uniqueTerms_def distinct_map_filter)

lemma uniqueTerms_snoc:
  "uniqueTerms m \<Longrightarrow> \<not> list_ex (\<lambda>x. termKey x = termKey w) m \<Longrightarrow> uniqueTerms (m @ [w])"
  by (auto simp add: uniqueTerms_def list_ex_iff)

lemma uniqueTerms_demo:
  "uniqueTerms (map (\<lambda>w. w\<lparr>lastMemorizedAt := Some now\<rparr>) (take 4 DEMO_WORDS))"
proof -
  have "map termKey (map (\<lambda>w. w\<lparr>lastMemorizedAt := Some now\<rparr>) (take 4 DEMO_WORDS))
        = map termKey (take 4 DEMO_WORDS)" by simp
  moreover have "distinct (map termKey (take 4 DEMO_WORDS))" by code_simp
  ultimately show ?thesis by (simp only: uniqueTerms_def)
qed

lemma uniqueInv_startLearning: "uniqueInv s \<Longrightarrow> uniqueInv (startLearning now ws s)"
  by (simp add: uniqueInv_def collectionsUnique_def startLearning_def Let_def
      uniqueTerms_uniqueWords)

lemma uniqueInv_saveToLibrary: "uniqueInv s \<Longrightarrow> uniqueInv (saveToLibrary st s)"
  by (simp add: uniqueInv_def collectionsUnique_def saveToLibrary_def Let_def)

lemma uniqueInv_deleteFromLibrary: "uniqueInv s \<Longrightarrow> uniqueInv (deleteFromLibrary i s)"
  by (simp add: uniqueInv_def collectionsUnique_def deleteFromLibrary_def Let_def)

lemma uniqueInv_handleUpload: "uniqueInv s \<Longrightarrow> uniqueInv (handleUpload lib now ws f ty s)"
proof -
  assume "uniqueInv s"
  then have "uniqueInv (s\<lparr>library := lib\<rparr>)"
    by (simp add: uniqueInv_def collectionsUnique_def)
  then show ?thesis
    by (simp add: handleUpload_def Let_def uniqueInv_startLearning uniqueInv_saveToLibrary)
qed

lemma uniqueInv_onUpload: "uniqueInv s \<Longrightarrow> uniqueInv (onUpload i now ws f ty s)"
proof -
  assume "uniqueInv s"
  then have "uniqueInv (s\<lparr>pendingUploads := dropAt i (pendingUploads s)\<rparr>)"
    by (simp add: uniqueInv_def collectionsUnique_def)
  then show ?thesis
    by (simp add: onUpload_def uniqueInv_handleUpload \<open>uniqueInv s\<close> split: option.splits)
qed

lemma uniqueInv_saveHistory:
  "uniqueInv s \<Longrightarrow> uniqueTerms h \<Longrightarrow> uniqueInv (saveHistory h s)"
  by (simp add: uniqueInv_def collectionsUnique_def saveHistory_def)

lemma uniqueInv_startDemoLearning: "uniqueInv s \<Longrightarrow> uniqueInv (startDemoLearning now s)"
  by (simp add: startDemoLearning_def Let_def uniqueInv_startLearning uniqueInv_saveToLibrary
      uniqueInv_saveHistory uniqueTerms_demo)

lemma uniqueInv_startWeeklyTest: "uniqueInv s \<Longrightarrow> uniqueInv (startWeeklyTest now r s)"
  by (simp add: uniqueInv_def collectionsUnique_def startWeeklyTest_def Let_def)

lemma uniqueInv_quizGenerated: "uniqueInv s \<Longrightarrow> uniqueInv (quizGenerated now r s)"
  by (simp add: uniqueInv_def collectionsUnique_def quizGenerated_def Let_def
      split: option.splits)

lemma uniqueInv_handleCardResult:
  "uniqueInv s \<Longrightarrow> handleCardResult b s = Some s' \<Longrightarrow> uniqueInv s'"
  by (auto simp add: uniqueInv_def collectionsUnique_def handleCardResult_def cardClosure_def
      split: option.splits)

lemma uniqueInv_handleQuizAnswer:
  "uniqueInv s \<Longrightarrow> handleQuizAnswer b s = Some s' \<Longrightarrow> uniqueInv s'"
  by (auto simp add: uniqueInv_def collectionsUnique_def handleQuizAnswer_def quizClosure_def
      Let_def split: option.splits if_splits)

lemma collectionsUnique_cardTimeout:
  assumes "collectionsUnique s" "uniqueTerms (cc_missedWords c)" "uniqueTerms (cc_historyWords c)"
  shows "collectionsUnique (cardTimeout now b c s)"
proof -
  have "uniqueTerms (take 500 ((cc_currentWord c)\<lparr>lastMemorizedAt := Some now\<rparr> #
      filter (\<lambda>w. termKey w \<noteq> termKey (cc_currentWord c)) (cc_historyWords c)))"
    by (intro uniqueTerms_take uniqueTerms_replace assms(3)) simp
  with assms(1,2) show ?thesis
    by (simp add: cardTimeout_def Let_def collectionsUnique_def saveMissed_def saveHistory_def
        uniqueTerms_filter uniqueTerms_snoc)
qed

lemma collectionsUnique_quizTimeout:
  assumes "collectionsUnique s" "uniqueTerms (qc_missedWords c)"
  shows "collectionsUnique (quizTimeout b c s)"
  using assms
  by (simp add: quizTimeout_def Let_def collectionsUnique_def saveMissed_def
      uniqueTerms_snoc split: option.splits)

lemma timers_cardTimeout: "timers (cardTimeout now b c s) = timers s"
  by (simp add: cardTimeout_def Let_def saveMissed_def saveHistory_def)

lemma timers_quizTimeout: "timers (quizTimeout b c s) = timers s"
  by (simp add: quizTimeout_def Let_def saveMissed_def split: option.splits)

lemma timers_runTimer: "timers (runTimer now t s) = timers s"
  by (cases t) (simp_all add: timers_cardTimeout timers_quizTimeout)

lemma collectionsUnique_runTimer:
  "collectionsUnique s \<Longrightarrow> timerUnique t \<Longrightarrow> collectionsUnique (runTimer now t s)"
proof (cases t)
  case (CardTimer b c)
  assume "collectionsUnique s" "timerUnique t"
  with CardTimer show ?thesis by (simp add: collectionsUnique_cardTimeout)
next
  case (QuizTimer b c)
  assume "collectionsUnique s" "timerUnique t"
  with QuizTimer show ?thesis by (simp add: collectionsUnique_quizTimeout)
next
  case ErrorTimer
  assume "collectionsUnique s"
  with ErrorTimer show ?thesis by (simp add: collectionsUnique_def)
qed

lemma uniqueInv_runTimer:
  "uniqueInv s \<Longrightarrow> timerUnique t \<Longrightarrow> uniqueInv (runTimer now t s)"
  by (simp add: uniqueInv_def collectionsUnique_runTimer timers_runTimer)

lemma list_all_dropAt: "list_all P xs \<Longrightarrow> list_all P (dropAt i xs)"
  by (auto simp add: dropAt_def list_all_iff dest: in_set_takeD in_set_dropD)

lemma at_Some_mem: "at xs i = Some x \<Longrightarrow> x \<in> set xs"
  by (auto simp add: at_def split: if_splits)

lemma uniqueInv_fireTimer: "uniqueInv s \<Longrightarrow> uniqueInv (fireTimer now i s)"
proof (cases "at (timers s) i")
  case None
  assume "uniqueInv s"
  with None show ?thesis by (simp add: fireTimer_def)
next
  case (Some t)
  assume u: "uniqueInv s"
  then have "timerUnique t" using at_Some_mem[OF Some] by (simp add: uniqueInv_def list_all_iff)
  moreover from u have "uniqueInv (s\<lparr>timers := dropAt i (timers s)\<rparr>)"
    by (simp add: uniqueInv_def collectionsUnique_def list_all_dropAt)
  ultimately show ?thesis using Some by (simp add: fireTimer_def uniqueInv_runTimer)
qed

lemma uniqueInv_step: "uniqueInv s \<Longrightarrow> uniqueInv (step now e s)"
proof (cases e)
  case (ClickCard b)
  assume "uniqueInv s"
  with ClickCard show ?thesis
    by (auto simp add: uniqueInv_handleCardResult split: option.splits)
next
  case (ClickOption k)
  assume "uniqueInv s"
  with ClickOption show ?thesis
    by (auto simp add: uniqueInv_handleQuizAnswer split: option.splits)
next
  case ClickBack
  assume "uniqueInv s"
  then show ?thesis by (simp add: ClickBack uniqueInv_def collectionsUnique_def)
next
  case ClickHome
  assume "uniqueInv s"
  then show ?thesis by (simp add: ClickHome uniqueInv_def collectionsUnique_def)
next
  case (QuizResponse i r)
  assume "uniqueInv s"
  then have "uniqueInv (s\<lparr>quizRequests := dropAt i (quizRequests s)\<rparr>)"
    by (simp add: uniqueInv_def collectionsUnique_def)
  then show ?thesis by (simp add: QuizResponse uniqueInv_quizGenerated \<open>uniqueInv s\<close> split: option.splits)
next
  case ChooseFile
  assume "uniqueInv s"
  then show ?thesis by (simp add: ChooseFile uniqueInv_def collectionsUnique_def)
next
  case (FileParsed i clock src f)
  assume "uniqueInv s"
  then have "uniqueInv (s\<lparr>pendingUploads := dropAt i (pendingUploads s)\<rparr>)"
    by (simp add: uniqueInv_def collectionsUnique_def)
  then show ?thesis
    by (simp add: FileParsed uniqueInv_onUpload \<open>uniqueInv s\<close> split: option.splits)
qed (simp_all add: uniqueInv_onUpload uniqueInv_startLearning uniqueInv_startWeeklyTest
      uniqueInv_deleteFromLibrary uniqueInv_startDemoLearning
      uniqueInv_fireTimer split: option.splits)

lemma uniqueInv_run: "uniqueInv s \<Longrightarrow> uniqueInv (run es s)"
  by (induction es arbitrary: s) (auto simp add: uniqueInv_step)

lemma uniqueInv_initialApp: "uniqueInv initialApp"
  by (simp add: uniqueInv_def collectionsUnique_def uniqueTerms_def initialApp_def)

lemma collectionsUnique_answerCard:
  assumes "collectionsUnique s" "answerCard now b s = Some s'"
  shows "collectionsUnique s'"
proof (cases "at (wordList s) (currentWordIndex s)")
  case None
  with assms(2) show ?thesis by (simp add: answerCard_None)
next
  case (Some w)
  from assms(1) have "collectionsUnique (s\<lparr>isProcessing := True\<rparr>)"
    by (simp add: collectionsUnique_def)
  moreover from assms(1) have "uniqueTerms (cc_missedWords (cardClosure w s))"
    "uniqueTerms (cc_historyWords (cardClosure w s))"
    by (simp_all add: collectionsUnique_def cardClosure_def)
  ultimately show ?thesis
    using assms(2) answerCard_eq[OF Some, of now b]
    by (auto simp add: collectionsUnique_cardTimeout)
qed

lemma collectionsUnique_answerQuiz:
  assumes "collectionsUnique s" "answerQuiz now b s = Some s'"
  shows "collectionsUnique s'"
proof (cases "isProcessing s")
  case True
  with assms show ?thesis by (simp add: answerQuiz_latched)
next
  case False
  show ?thesis
  proof (cases "at (quizQuestions s) (currentQuizIndex s)")
    case None
    with False assms(2) show ?thesis by (simp add: answerQuiz_None)
  next
    case (Some q)
    from assms(1) have "collectionsUnique (s\<lparr>isProcessing := True\<rparr>)"
      by (simp add: collectionsUnique_def)
    moreover from assms(1) have "uniqueTerms (qc_missedWords (quizClosure ow s))" for ow
      by (simp add: collectionsUnique_def quizClosure_def)
    ultimately show ?thesis
      using assms(2) answerQuiz_eq[OF False Some, of now b]
      by (auto simp add: collectionsUnique_quizTimeout)
  qed
qed

text \<open>
  Claim C6. Starting a session gives a word list without two items of one case-folded
  term and keeps History and MissedSet; a committed answer of a learning session or of a
  quiz session keeps all three collections free of such pairs; so does every event of
  the running component (there together with the lists that pending callbacks hold), and
  hence every state reached from the initial one.
\<close>

theorem uniqueness_preserved:
  "(collectionsUnique s \<longrightarrow> collectionsUnique (startLearning now ws s))
   \<and> (collectionsUnique s \<longrightarrow> (\<forall>s'. answerCard now b s = Some s' \<longrightarrow> collectionsUnique s'))
   \<and> (collectionsUnique s \<longrightarrow> (\<forall>s'. answerQuiz now b s = Some s' \<longrightarrow> collectionsUnique s'))
   \<and> (uniqueInv s \<longrightarrow> uniqueInv (step now e s))
   \<and> (uniqueInv s \<longrightarrow> collectionsUnique (run es s))
   \<and> collectionsUnique (run es initialApp)"
proof -
  have "collectionsUnique s \<longrightarrow> collectionsUnique (startLearning now ws s)"
    by (simp add: collectionsUnique_def startLearning_def Let_def uniqueTerms_uniqueWords)
  moreover have "uniqueInv s \<longrightarrow> collectionsUnique (run es s)" for s
    using uniqueInv_run[of s es] by (simp add: uniqueInv_def)
  ultimately show ?thesis
    using collectionsUnique_answerCard collectionsUnique_answerQuiz uniqueInv_step
      uniqueInv_initialApp
    by blast
qed

lemma uniqueInv_quizSession: "uniqueInv quizSession"
  by code_simp

theorem uniqueness_preserved_witness:
  "collectionsUnique learningSession
   \<and> collectionsUnique (startLearning 5 exampleWords learningSession)
   \<and> (\<exists>s'. answerCard 1000 False learningSession = Some s' \<and> collectionsUnique s')
   \<and> collectionsUnique quizSession
   \<and> (\<exists>s'. answerQuiz 6800 False quizSession = Some s' \<and> collectionsUnique s')
   \<and> uniqueInv quizSession
   \<and> uniqueInv (step 6000 (ClickOption 1) quizSession)
   \<and> collectionsUnique (run [(6000, ClickOption 1), (6800, TimerFires 0)] quizSession)"
proof -
  have l: "collectionsUnique learningSession" by code_simp
  have q: "collectionsUnique quizSession"
    using uniqueInv_quizSession by (simp add: uniqueInv_def)
  from answerCard_eq[OF at_learningSession, of 1000 False]
  obtain s1 where s1: "answerCard 1000 False learningSession = Some s1" by blast
  from at_quizSession answerQuiz_eq[of quizSession exampleQuestion 6800 False]
  obtain s2 where s2: "answerQuiz 6800 False quizSession = Some s2" by blast
  from uniqueness_preserved[where s = learningSession and now = 5 and ws = exampleWords] l
  have "collectionsUnique (startLearning 5 exampleWords learningSession)" by blast
  moreover from uniqueness_preserved[where s = learningSession and now = 1000 and b = False] l s1
  have "collectionsUnique s1" by blast
  moreover from uniqueness_preserved[where s = quizSession and now = 6800 and b = False] q s2
  have "collectionsUnique s2" by blast
  moreover from uniqueness_preserved[where s = quizSession and now = 6000
      and e = "ClickOption 1"] uniqueInv_quizSession
  have "uniqueInv (step 6000 (ClickOption 1) quizSession)" by blast
  moreover from uniqueness_preserved[where s = quizSession
      and es = "[(6000, ClickOption 1), (6800, TimerFires 0)]"] uniqueInv_quizSession
  have "collectionsUnique (run [(6000, ClickOption 1), (6800, TimerFires 0)] quizSession)"
    by blast
  ultimately show ?thesis using l q s1 s2 uniqueInv_quizSession by blast
qed

section \<open>The processing latch\<close>

lemma latchInv_ignores:
  "latchInv s \<Longrightarrow> timers s' = timers s \<Longrightarrow> isProcessing s' = isProcessing s \<Longrightarrow> latchInv s'"
  by (simp add: latchInv_def answersInFlight_def)

lemma latch_startLearning:
  "timers (startLearning now ws s) = timers s"
  "isProcessing (startLearning now ws s) = isProcessing s"
  by (simp_all add: startLearning_def Let_def)

lemma latch_saveToLibrary:
  "timers (saveToLibrary st s) = timers s"
  "isProcessing (saveToLibrary st s) = isProcessing s"
  by (simp_all add: saveToLibrary_def Let_def)

lemma latch_handleUpload:
  "timers (handleUpload lib now ws f ty s) = timers s"
  "isProcessing (handleUpload lib now ws f ty s) = isProcessing s"
  by (simp_all add: handleUpload_def Let_def latch_startLearning latch_saveToLibrary)

lemma latch_onUpload:
  "timers (onUpload i now ws f ty s) = timers s"
  "isProcessing (onUpload i now ws f ty s) = isProcessing s"
  by (simp_all add: onUpload_def latch_handleUpload split: option.splits)

lemma latch_startDemoLearning:
  "timers (startDemoLearning now s) = timers s"
  "isProcessing (startDemoLearning now s) = isProcessing s"
  by (simp_all add: startDemoLearning_def Let_def latch_startLearning latch_saveToLibrary
      saveHistory_def)

lemma latch_deleteFromLibrary:
  "timers (deleteFromLibrary i s) = timers s"
  "isProcessing (deleteFromLibrary i s) = isProcessing s"
  by (simp_all add: deleteFromLibrary_def Let_def)

lemma latch_quizGenerated:
  "timers (quizGenerated now r s) = timers s"
  "isProcessing (quizGenerated now r s) = isProcessing s"
  by (simp_all add: quizGenerated_def Let_def split: option.splits)

lemma latchInv_startWeeklyTest: "latchInv s \<Longrightarrow> latchInv (startWeeklyTest now r s)"
  by (auto simp add: latchInv_def answersInFlight_def startWeeklyTest_def Let_def
      split: if_splits)

lemma latchInv_handleCardResult:
  "latchInv s \<Longrightarrow> \<not> isProcessing s \<Longrightarrow> handleCardResult b s = Some s' \<Longrightarrow> latchInv s'"
  by (auto simp add: latchInv_def answersInFlight_def handleCardResult_def
      split: option.splits if_splits)

lemma latchInv_handleQuizAnswer:
  "latchInv s \<Longrightarrow> handleQuizAnswer b s = Some s' \<Longrightarrow> latchInv s'"
  by (auto simp add: latchInv_def answersInFlight_def handleQuizAnswer_def Let_def
      split: option.splits if_splits)

lemma isProcessing_runTimer:
  "isProcessing (runTimer now t s) = (if isAnswerTimer t then False else isProcessing s)"
  by (cases t) (simp_all add: cardTimeout_def quizTimeout_def Let_def saveMissed_def
      saveHistory_def split: option.splits)

lemma filter_dropAt_answer:
  assumes "at ts i = Some t"
  shows "length (filter P (dropAt i ts)) = length (filter P ts) - (if P t then 1 else 0)"
proof -
  from assms have i: "i < length ts" and t: "ts ! i = t"
    by (auto simp add: at_def split: if_splits)
  then have "ts = take i ts @ t # drop (Suc i) ts" by (metis id_take_nth_drop)
  then have "filter P ts = filter P (take i ts) @ filter P [t] @ filter P (drop (Suc i) ts)"
    by (metis append_Cons append_Nil filter_append)
  then show ?thesis by (simp add: dropAt_def)
qed

lemma latchInv_fireTimer: "latchInv s \<Longrightarrow> latchInv (fireTimer now i s)"
proof (cases "at (timers s) i")
  case None
  assume "latchInv s"
  with None show ?thesis by (simp add: fireTimer_def)
next
  case (Some t)
  assume l: "latchInv s"
  have n: "answersInFlight (fireTimer now i s) =
      answersInFlight s - (if isAnswerTimer t then 1 else 0)"
    using Some filter_dropAt_answer[OF Some, of isAnswerTimer]
    by (simp add: fireTimer_def answersInFlight_def timers_runTimer)
  have p: "isProcessing (fireTimer now i s) = (if isAnswerTimer t then False else isProcessing s)"
    using Some by (simp add: fireTimer_def isProcessing_runTimer)
  show ?thesis
  proof (cases "isAnswerTimer t")
    case True
    have "t \<in> set (filter isAnswerTimer (timers s))" using True at_Some_mem[OF Some] by simp
    then have "answersInFlight s \<noteq> 0"
      by (auto simp add: answersInFlight_def filter_empty_conv)
    with l have "answersInFlight s = 1" by (simp add: latchInv_def split: if_splits)
    with n p True show ?thesis by (simp add: latchInv_def)
  next
    case False
    with n p l show ?thesis by (simp add: latchInv_def)
  qed
qed

lemma latchInv_step: "latchInv s \<Longrightarrow> latchInv (step now e s)"
proof (cases e)
  case (ClickCard b)
  assume "latchInv s"
  with ClickCard show ?thesis
    by (auto simp add: latchInv_handleCardResult split: option.splits)
next
  case (ClickOption k)
  assume "latchInv s"
  with ClickOption show ?thesis
    by (auto simp add: latchInv_handleQuizAnswer split: option.splits)
next
  case (QuizResponse i r)
  assume "latchInv s"
  then have "latchInv (s\<lparr>quizRequests := dropAt i (quizRequests s)\<rparr>)"
    by (simp add: latchInv_def answersInFlight_def)
  then have "latchInv (quizGenerated now r (s\<lparr>quizRequests := dropAt i (quizRequests s)\<rparr>))"
    by (rule latchInv_ignores) (simp_all add: latch_quizGenerated)
  with \<open>latchInv s\<close> show ?thesis by (simp add: QuizResponse split: option.splits)
next
  case ChooseFile
  assume "latchInv s"
  then show ?thesis unfolding ChooseFile step.simps
    by (rule latchInv_ignores) simp_all
next
  case (Upload i ws f ty)
  assume "latchInv s"
  then show ?thesis unfolding Upload step.simps
    by (rule latchInv_ignores) (simp_all add: latch_onUpload)
next
  case (FileParsed i clock src f)
  assume "latchInv s"
  then show ?thesis unfolding FileParsed step.simps
    by (rule latchInv_ignores) (simp_all add: latch_onUpload split: option.splits)
next
  case ClickReviewMissed
  assume "latchInv s"
  then show ?thesis unfolding ClickReviewMissed step.simps
    by (rule latchInv_ignores) (simp_all add: latch_startLearning)
next
  case (ClickWeeklyTest r)
  assume "latchInv s"
  then show ?thesis by (simp add: ClickWeeklyTest latchInv_startWeeklyTest)
next
  case (ClickSet i)
  assume "latchInv s"
  then show ?thesis unfolding ClickSet step.simps
    by (rule latchInv_ignores) (simp_all add: latch_startLearning split: option.splits)
next
  case (ClickDelete i)
  assume "latchInv s"
  then show ?thesis unfolding ClickDelete step.simps
    by (rule latchInv_ignores) (simp_all add: latch_deleteFromLibrary split: option.splits)
next
  case ClickDemo
  assume "latchInv s"
  then show ?thesis unfolding ClickDemo step.simps
    by (rule latchInv_ignores) (simp_all add: latch_startDemoLearning)
next
  case ClickBack
  assume "latchInv s"
  then show ?thesis unfolding ClickBack step.simps
    by (rule latchInv_ignores) simp_all
next
  case (TimerFires i)
  assume "latchInv s"
  then show ?thesis by (simp add: TimerFires latchInv_fireTimer)
next
  case ClickReviewRound
  assume "latchInv s"
  then show ?thesis unfolding ClickReviewRound step.simps
    by (rule latchInv_ignores) (simp_all add: latch_startLearning)
next
  case ClickHome
  assume "latchInv s"
  then show ?thesis unfolding ClickHome step.simps
    by (rule latchInv_ignores) simp_all
qed

lemma latchInv_run: "latchInv s \<Longrightarrow> latchInv (run es s)"
  by (induction es arbitrary: s) (auto simp add: latchInv_step)

lemma latchInv_initialApp: "latchInv initialApp"
  by (simp add: latchInv_def answersInFlight_def initialApp_def)

text \<open>
  Claim C7. While \<open>isProcessing\<close> holds, an answer is dropped: the buttons of the flashcard
  and the options of the quiz question are disabled, so a click on them leaves the whole
  state as it is (stats, History, MissedSet, the indices, the pending timers), and
  \<open>handleQuizAnswer\<close> returns at once. Every event keeps the latch in step with the
  pending answer timers, so in every state reached from the initial one at most one
  answer is in flight, and one is in flight exactly when \<open>isProcessing\<close> holds.
  (\<open>handleCardResult\<close> has no test of its own, see \<open>handleCardResult_reads_no_latch\<close>: in
  a learning session the disabled buttons are what drops the answer.)
\<close>

theorem latch_drops_answers:
  "(isProcessing s \<longrightarrow>
      step now (ClickCard success) s = s
    \<and> step now (ClickOption k) s = s
    \<and> handleQuizAnswer isCorrect s = Some s)
   \<and> (latchInv s \<longrightarrow> latchInv (step now e s))
   \<and> answersInFlight (run es initialApp) \<le> 1
   \<and> (answersInFlight (run es initialApp) = 1) = isProcessing (run es initialApp)"
proof -
  have "isProcessing s \<longrightarrow>
      step now (ClickCard success) s = s
    \<and> step now (ClickOption k) s = s
    \<and> handleQuizAnswer isCorrect s = Some s"
    by (simp add: handleQuizAnswer_def)
  moreover have "latchInv (run es initialApp)"
    by (rule latchInv_run) (rule latchInv_initialApp)
  then have "answersInFlight (run es initialApp) \<le> 1
     \<and> (answersInFlight (run es initialApp) = 1) = isProcessing (run es initialApp)"
    by (simp add: latchInv_def split: if_splits)
  ultimately show ?thesis using latchInv_step by blast
qed

lemma handleCardResult_reads_no_latch:
  "handleCardResult success (s\<lparr>isProcessing := True\<rparr>)
     = map_option (\<lambda>s'. s'\<lparr>isProcessing := True\<rparr>) (handleCardResult success s)"
  by (simp add: handleCardResult_def cardClosure_def split: option.splits)

theorem latch_drops_answers_witness:
  "isProcessing (step 500 (ClickCard False) learningSession)
   \<and> step 600 (ClickCard True) (step 500 (ClickCard False) learningSession)
       = step 500 (ClickCard False) learningSession
   \<and> latchInv (step 500 (ClickCard False) learningSession)
   \<and> latchInv (step 900 (TimerFires 0) (step 500 (ClickCard False) learningSession))"
proof -
  have p: "isProcessing (step 500 (ClickCard False) learningSession)" by code_simp
  have l: "latchInv (step 500 (ClickCard False) learningSession)" by code_simp
  from latch_drops_answers[where s = "step 500 (ClickCard False) learningSession"
      and now = 600 and success = True] p
  have "step 600 (ClickCard True) (step 500 (ClickCard False) learningSession)
       = step 500 (ClickCard False) learningSession" by blast
  moreover from latch_drops_answers[where s = "step 500 (ClickCard False) learningSession"
      and now = 900 and e = "TimerFires 0"] l
  have "latchInv (step 900 (TimerFires 0) (step 500 (ClickCard False) learningSession))"
    by blast
  ultimately show ?thesis using p l by blast
qed

section \<open>Ids and mastery level\<close>

lemma less_ten_cases:
  "d < 10 \<Longrightarrow> d = 0 \<or> d = 1 \<or> d = 2 \<or> d = 3 \<or> d = 4 \<or> d = 5 \<or> d = 6 \<or> d = 7 \<or> d = 8 \<or> d = (9::nat)"
  by arith

lemma digitVal_digitChar: "d < 10 \<Longrightarrow> digitVal (digitChar d) = d"
  by (drule less_ten_cases) (auto simp add: digitVal_def digitChar_def)

lemma isDigit_digitChar: "d < 10 \<Longrightarrow> isDigit (digitChar d)"
  by (drule less_ten_cases) (auto simp add: isDigit_def digitChar_def)

lemma readNat_snoc: "readNat (cs @ [c]) = 10 * readNat cs + digitVal c"
  by (simp add: readNat_def)

lemma readNat_showNat: "readNat (showNat n) = n"
proof (induction n rule: showNat.induct)
  case (1 n)
  show ?case
  proof (cases "n < 10")
    case True
    then have "showNat n = [digitChar n]" by (subst showNat.simps) simp
    with True show ?thesis by (simp add: readNat_def digitVal_digitChar)
  next
    case False
    then have "showNat n = showNat (n div 10) @ [digitChar (n mod 10)]"
      by (subst showNat.simps) simp
    with 1 False show ?thesis by (simp add: readNat_snoc digitVal_digitChar)
  qed
qed

lemma showNat_inj: "showNat i = showNat j \<Longrightarrow> i = j"
  by (metis readNat_showNat)

lemma digits_showNat: "list_all isDigit (showNat n)"
proof (induction n rule: showNat.induct)
  case (1 n)
  show ?case
  proof (cases "n < 10")
    case True
    then have "showNat n = [digitChar n]" by (subst showNat.simps) simp
    with True show ?thesis by (simp add: isDigit_digitChar)
  next
    case False
    then have "showNat n = showNat (n div 10) @ [digitChar (n mod 10)]"
      by (subst showNat.simps) simp
    with 1 False show ?thesis by (simp add: isDigit_digitChar)
  qed
qed

lemma takeWhile_digits:
  "list_all P xs \<Longrightarrow> \<not> P c \<Longrightarrow> takeWhile P (xs @ c # r) = xs"
  by (induction xs) auto

lemma indexed_id_inj:
  assumes "showNat i @ CHR ''-'' # a = showNat j @ CHR ''-'' # b"
  shows "i = j"
proof -
  have nd: "\<not> isDigit CHR ''-''" by (simp add: isDigit_def)
  from assms have "takeWhile isDigit (showNat i @ CHR ''-'' # a)
           = takeWhile isDigit (showNat j @ CHR ''-'' # b)" by simp
  then have "showNat i = showNat j"
    by (simp add: takeWhile_digits[OF digits_showNat nd])
  then show ?thesis by (rule showNat_inj)
qed

lemma distinct_ids_indexedItems: "distinct (map id_w (indexedItems pre clock ts))"
proof -
  let ?f = "\<lambda>(i, w). pre @ showNat i @ ''-'' @ numToString (clock i)"
  have m: "map id_w (indexedItems pre clock ts) = map ?f (enumerate 0 ts)"
    by (simp add: indexedItems_def wordItem_def case_prod_beta)
  have "inj_on ?f (set (enumerate 0 ts))"
  proof (rule inj_onI)
    fix x y
    assume x: "x \<in> set (enumerate 0 ts)" and y: "y \<in> set (enumerate 0 ts)" and e: "?f x = ?f y"
    obtain i w where xi: "x = (i, w)" by (cases x)
    obtain j v where yj: "y = (j, v)" by (cases y)
    from e xi yj have "i = j" by (auto dest: indexed_id_inj)
    moreover from x xi have "w = ts ! i" by (auto simp add: in_set_enumerate_eq)
    moreover from y yj have "v = ts ! j" by (auto simp add: in_set_enumerate_eq)
    ultimately show "x = y" using xi yj by simp
  qed
  moreover have "distinct (enumerate 0 ts)" by (simp add: distinct_enumerate)
  ultimately show ?thesis unfolding m by (simp add: distinct_map)
qed

lemma mastery_indexedItems: "list_all (\<lambda>w. masteryLevel w = 0) (indexedItems pre clock ts)"
  by (auto simp add: indexedItems_def wordItem_def list_all_iff)

lemma terms_indexedItems: "map term_w (indexedItems pre clock ts) = ts"
proof -
  have "map term_w (indexedItems pre clock ts) = map snd (enumerate 0 ts)"
    by (simp add: indexedItems_def wordItem_def case_prod_beta comp_def)
  then show ?thesis by simp
qed

lemma subseq_uniqueWords: "subseq (uniqueWords ws) ws"
  by (simp add: uniqueWords_firstOccurrences subseq_firstOccurrences)

lemma distinct_map_firstOccurrences:
  "distinct (map f ws) \<Longrightarrow> distinct (map f (firstOccurrences ws))"
proof (induction ws rule: firstOccurrences.induct)
  case 1
  show ?case by simp
next
  case (2 w ws)
  let ?r = "filter (\<lambda>x. termKey x \<noteq> termKey w) ws"
  from "2.prems" have "distinct (map f ?r)" by (simp add: distinct_map_filter)
  then have "distinct (map f (firstOccurrences ?r))" by (rule "2.IH")
  moreover have "set (firstOccurrences ?r) \<subseteq> set ws"
    using set_firstOccurrences[of ?r] by auto
  with "2.prems" have "f w \<notin> f ` set (firstOccurrences ?r)" by auto
  ultimately show ?case by simp
qed

lemma distinct_ids_uniqueWords:
  "distinct (map id_w ws) \<Longrightarrow> distinct (map id_w (uniqueWords ws))"
  by (simp add: uniqueWords_firstOccurrences distinct_map_firstOccurrences)

lemma set_uniqueWords: "set (uniqueWords ws) \<subseteq> set ws"
  by (simp add: uniqueWords_firstOccurrences set_firstOccurrences)

subsection \<open>The parsers\<close>

text \<open>
  Every parser of \<open>FileUpload\<close> writes the index of the item into its id, between the
  prefix and the clock reading, and mastery level 0: the ids of the items it hands to
  \<open>onUpload\<close> are pairwise distinct.
\<close>

lemma distinct_ids_map_filter:
  assumes f: "\<And>i x w. f i x = Some w \<Longrightarrow> \<exists>r. id_w w = pre @ showNat i @ CHR ''-'' # r"
  shows "distinctIds (List.map_filter (\<lambda>(i, x). f i x) (enumerate n xs))"
proof -
  let ?g = "\<lambda>(i, x). f i x"
  let ?es = "filter (\<lambda>p. ?g p \<noteq> None) (enumerate n xs)"
  have "inj_on (id_w \<circ> (the \<circ> ?g)) (set ?es)"
  proof (rule inj_onI)
    fix p q
    assume p: "p \<in> set ?es" and q: "q \<in> set ?es"
      and e: "(id_w \<circ> (the \<circ> ?g)) p = (id_w \<circ> (the \<circ> ?g)) q"
    obtain i x where pi: "p = (i, x)" by (cases p)
    obtain j y where qj: "q = (j, y)" by (cases q)
    from p pi obtain w where w: "f i x = Some w" by auto
    from q qj obtain v where v: "f j y = Some v" by auto
    from f[OF w] obtain a where a: "id_w w = pre @ showNat i @ CHR ''-'' # a" ..
    from f[OF v] obtain b where b: "id_w v = pre @ showNat j @ CHR ''-'' # b" ..
    from e pi qj w v a b have "i = j" by (auto dest: indexed_id_inj)
    moreover from p pi have "x = xs ! (i - n)" by (auto simp add: in_set_enumerate_eq)
    moreover from q qj have "y = xs ! (j - n)" by (auto simp add: in_set_enumerate_eq)
    ultimately show "p = q" using pi qj by simp
  qed
  moreover have "distinct ?es" by (simp add: distinct_enumerate)
  ultimately show ?thesis
    by (simp add: distinctIds_def List.map_filter_def distinct_map comp_def)
qed

lemma zeroMastery_map_filter:
  assumes f: "\<And>i x w. f i x = Some w \<Longrightarrow> masteryLevel w = 0"
  shows "zeroMastery (List.map_filter (\<lambda>(i, x). f i x) (enumerate n xs))"
  using f by (auto simp add: zeroMastery_def List.map_filter_def list_all_iff)

lemma excelRow_id:
  "excelRow clock i row = Some w \<Longrightarrow> \<exists>r. id_w w = ''word-'' @ showNat i @ CHR ''-'' # r"
  by (auto simp add: excelRow_def Let_def split: if_splits)

lemma excelRow_mastery: "excelRow clock i row = Some w \<Longrightarrow> masteryLevel w = 0"
  by (auto simp add: excelRow_def Let_def split: if_splits)

lemma textLine_id:
  "textLine clock i line = Some w \<Longrightarrow> \<exists>r. id_w w = ''word-'' @ showNat i @ CHR ''-'' # r"
  by (auto simp add: textLine_def wordItem_def Let_def split: if_splits)

lemma textLine_mastery: "textLine clock i line = Some w \<Longrightarrow> masteryLevel w = 0"
  by (auto simp add: textLine_def wordItem_def Let_def split: if_splits)

lemma parseFile_batch:
  assumes "parseFile clock src = Some (batch, ty)"
  shows "distinctIds batch \<and> zeroMastery batch"
proof (cases src)
  case (ImageFile ws)
  with assms show ?thesis
    by (auto simp add: handleImageOCR_def ocrItems_def distinctIds_def zeroMastery_def
        distinct_ids_indexedItems mastery_indexedItems split: if_splits)
next
  case (DocumentFile content ws)
  with assms show ?thesis
    by (auto simp add: parseWordDoc_def docItems_def distinctIds_def zeroMastery_def
        distinct_ids_indexedItems mastery_indexedItems split: if_splits)
next
  case (SheetFile rows)
  with assms have "batch = List.map_filter (\<lambda>(index, row). excelRow clock index row) (enumerate 0 rows)"
    by (auto simp add: parseExcel_def Let_def split: if_splits)
  then show ?thesis
    using distinct_ids_map_filter[of "excelRow clock" "''word-''" 0 rows, OF excelRow_id]
      zeroMastery_map_filter[of "excelRow clock" 0 rows, OF excelRow_mastery]
    by simp
next
  case (TextFile content)
  let ?lines = "filter (\<lambda>line. trim line \<noteq> []) (splitLines content)"
  from TextFile assms have "batch = List.map_filter (\<lambda>(index, line). textLine clock index line) (enumerate 0 ?lines)"
    by (auto simp add: parseTextOrCsv_def Let_def split: if_splits)
  then show ?thesis
    using distinct_ids_map_filter[of "textLine clock" "''word-''" 0 ?lines, OF textLine_id]
      zeroMastery_map_filter[of "textLine clock" 0 ?lines, OF textLine_mastery]
    by simp
qed

subsection \<open>Mastery level 0 everywhere\<close>

text \<open>
  No handler of \<open>App\<close> writes a mastery level: an item is copied from list to list, at
  most with a new \<open>lastMemorizedAt\<close>. So the invariant \<open>ingestInv\<close> holds along every run
  whose uploads come from the parsers.
\<close>

lemma zeroMastery_set: "zeroMastery ws = (\<forall>w\<in>set ws. masteryLevel w = 0)"
  by (simp add: zeroMastery_def list_all_iff)

lemma zeroMastery_append [simp]: "zeroMastery (xs @ ys) = (zeroMastery xs \<and> zeroMastery ys)"
  by (simp add: zeroMastery_def)

lemma zeroMastery_Nil [simp]: "zeroMastery []"
  by (simp add: zeroMastery_def)

lemma zeroMastery_Cons [simp]: "zeroMastery (w # ws) = (masteryLevel w = 0 \<and> zeroMastery ws)"
  by (simp add: zeroMastery_def)

lemma zeroMastery_at: "zeroMastery ws \<Longrightarrow> at ws i = Some w \<Longrightarrow> masteryLevel w = 0"
  by (auto simp add: zeroMastery_set at_def split: if_splits)

lemma zeroMastery_find: "zeroMastery ws \<Longrightarrow> find P ws = Some w \<Longrightarrow> masteryLevel w = 0"
  by (auto simp add: zeroMastery_set find_Some_iff)

lemma ingestInv_update [simp]:
  "ingestInv (s\<lparr>isProcessing := b\<rparr>) = ingestInv s"
  "ingestInv (s\<lparr>view := v\<rparr>) = ingestInv s"
  "ingestInv (s\<lparr>stats := st\<rparr>) = ingestInv s"
  "ingestInv (s\<lparr>currentWordIndex := i\<rparr>) = ingestInv s"
  "ingestInv (s\<lparr>currentQuizIndex := i\<rparr>) = ingestInv s"
  "ingestInv (s\<lparr>quizQuestions := qs\<rparr>) = ingestInv s"
  "ingestInv (s\<lparr>quizLoading := b\<rparr>) = ingestInv s"
  "ingestInv (s\<lparr>quizRequests := rs\<rparr>) = ingestInv s"
  "ingestInv (s\<lparr>errorMessage := m\<rparr>) = ingestInv s"
  by (simp_all add: ingestInv_def allItems_def)

lemma ingestInv_lastIncorrect:
  "ingestInv s \<Longrightarrow> zeroMastery ws \<Longrightarrow> ingestInv (s\<lparr>lastIncorrectInSession := ws\<rparr>)"
  by (simp add: ingestInv_def allItems_def)

lemma ingestInv_timer:
  "ingestInv s \<Longrightarrow> zeroMastery (timerItems t) \<Longrightarrow> ingestInv (s\<lparr>timers := timers s @ [t]\<rparr>)"
  by (simp add: ingestInv_def allItems_def)

lemma ingestInv_parts:
  assumes "ingestInv s"
  shows "zeroMastery (wordList s)" "zeroMastery (missedWords s)" "zeroMastery (historyWords s)"
    "zeroMastery (lastIncorrectInSession s)" "zeroMastery (libraryItems (library s))"
    "distinctSets (library s)"
  using assms by (simp_all add: ingestInv_def allItems_def)

lemma zeroMastery_subset: "zeroMastery ws \<Longrightarrow> set us \<subseteq> set ws \<Longrightarrow> zeroMastery us"
  by (auto simp add: zeroMastery_set)

lemma zeroMastery_uniqueWords: "zeroMastery ws \<Longrightarrow> zeroMastery (uniqueWords ws)"
  using set_uniqueWords[of ws] by (rule zeroMastery_subset[rotated])

lemma zeroMastery_filter: "zeroMastery ws \<Longrightarrow> zeroMastery (filter P ws)"
  by (auto simp add: zeroMastery_set)

lemma zeroMastery_take: "zeroMastery ws \<Longrightarrow> zeroMastery (take n ws)"
  by (auto simp add: zeroMastery_set dest: in_set_takeD)

lemma zeroMastery_dropAt_concat:
  "zeroMastery (concat (map f xs)) \<Longrightarrow> zeroMastery (concat (map f (dropAt i xs)))"
  by (auto simp add: zeroMastery_set dropAt_def dest: in_set_takeD in_set_dropD)

lemma zeroMastery_at_concat:
  "zeroMastery (concat (map f xs)) \<Longrightarrow> at xs i = Some x \<Longrightarrow> zeroMastery (f x)"
  by (auto simp add: zeroMastery_set at_def split: if_splits)

lemma list_all_at: "list_all P xs \<Longrightarrow> at xs i = Some x \<Longrightarrow> P x"
  by (auto simp add: list_all_iff at_def split: if_splits)

lemma ingestInv_startLearning:
  "ingestInv s \<Longrightarrow> zeroMastery ws \<Longrightarrow> ingestInv (startLearning now ws s)"
  by (simp add: ingestInv_def allItems_def startLearning_def Let_def zeroMastery_uniqueWords)

lemma ingestInv_saveToLibrary:
  assumes "ingestInv s" "zeroMastery (words st)" "distinctIds (words st)"
  shows "ingestInv (saveToLibrary st s)"
proof -
  define l where "l = take 20 (st # filter (\<lambda>item. name item \<noteq> name st) (library s))"
  have sub: "\<And>x. x \<in> set l \<Longrightarrow> x = st \<or> x \<in> set (library s)"
    unfolding l_def by (auto dest!: in_set_takeD)
  from assms have "zeroMastery (libraryItems l)"
    using sub by (fastforce simp add: ingestInv_def allItems_def libraryItems_def zeroMastery_set)
  moreover from assms have "distinctSets l"
    using sub by (fastforce simp add: ingestInv_def distinctSets_def list_all_iff)
  moreover have "saveToLibrary st s = s\<lparr>library := l, vocab_boost_library_v1 := Some l\<rparr>"
    by (simp only: saveToLibrary_def Let_def l_def)
  ultimately show ?thesis using assms(1)
    by (simp add: ingestInv_def allItems_def)
qed

lemma ingestInv_saveHistory:
  "ingestInv s \<Longrightarrow> zeroMastery ws \<Longrightarrow> ingestInv (saveHistory ws s)"
  by (simp add: ingestInv_def allItems_def saveHistory_def)

lemma ingestInv_saveMissed:
  "ingestInv s \<Longrightarrow> zeroMastery ws \<Longrightarrow> ingestInv (saveMissed ws s)"
  by (simp add: ingestInv_def allItems_def saveMissed_def)

lemma ingestInv_deleteFromLibrary:
  "ingestInv s \<Longrightarrow> ingestInv (deleteFromLibrary i s)"
  by (auto simp add: ingestInv_def allItems_def deleteFromLibrary_def Let_def libraryItems_def
      zeroMastery_set distinctSets_def list_all_iff)

lemma ingestInv_handleUpload:
  assumes "ingestInv s" "zeroMastery (libraryItems lib)" "distinctSets lib"
    "zeroMastery ws" "distinctIds ws"
  shows "ingestInv (handleUpload lib now ws f ty s)"
proof -
  from assms have "ingestInv (s\<lparr>library := lib\<rparr>)"
    by (simp add: ingestInv_def allItems_def)
  then show ?thesis using assms
    by (simp add: handleUpload_def Let_def ingestInv_startLearning ingestInv_saveToLibrary)
qed

lemma ingestInv_onUpload:
  assumes "ingestInv s" "zeroMastery ws" "distinctIds ws"
  shows "ingestInv (onUpload i now ws f ty s)"
proof (cases "at (pendingUploads s) i")
  case None
  with assms show ?thesis by (simp add: onUpload_def)
next
  case (Some lib)
  from assms(1) have p: "ingestInv (s\<lparr>pendingUploads := dropAt i (pendingUploads s)\<rparr>)"
    by (simp add: ingestInv_def allItems_def zeroMastery_dropAt_concat list_all_dropAt)
  from assms(1) Some have "zeroMastery (libraryItems lib)" "distinctSets lib"
    by (auto simp add: ingestInv_def allItems_def dest: zeroMastery_at_concat list_all_at)
  with p Some assms show ?thesis
    by (simp add: onUpload_def ingestInv_handleUpload)
qed

lemma zeroMastery_DEMO_WORDS: "zeroMastery DEMO_WORDS"
  by (simp add: zeroMastery_def DEMO_WORDS_def wordItem_def)

lemma distinctIds_DEMO_WORDS: "distinctIds DEMO_WORDS"
  by (simp add: distinctIds_def DEMO_WORDS_def wordItem_def)

lemma ingestInv_startDemoLearning: "ingestInv s \<Longrightarrow> ingestInv (startDemoLearning now s)"
proof -
  assume s: "ingestInv s"
  have "zeroMastery (map (\<lambda>w. w\<lparr>lastMemorizedAt := Some now\<rparr>) (take 4 DEMO_WORDS))"
    using zeroMastery_DEMO_WORDS by (auto simp add: zeroMastery_set dest: in_set_takeD)
  with s show ?thesis
    by (simp add: startDemoLearning_def Let_def ingestInv_startLearning ingestInv_saveToLibrary
        ingestInv_saveHistory zeroMastery_DEMO_WORDS distinctIds_DEMO_WORDS)
qed

lemma ingestInv_startWeeklyTest: "ingestInv s \<Longrightarrow> ingestInv (startWeeklyTest now r s)"
  by (simp add: ingestInv_def allItems_def startWeeklyTest_def Let_def)

lemma ingestInv_quizGenerated: "ingestInv s \<Longrightarrow> ingestInv (quizGenerated now r s)"
  by (simp add: ingestInv_def allItems_def quizGenerated_def Let_def split: option.splits)

lemma ingestInv_handleCardResult:
  assumes s: "ingestInv s" and h: "handleCardResult b s = Some s'"
  shows "ingestInv s'"
proof -
  from h obtain w where w: "at (wordList s) (currentWordIndex s) = Some w"
    and s': "s' = s\<lparr>isProcessing := True, timers := timers s @ [CardTimer b (cardClosure w s)]\<rparr>"
    by (auto simp add: handleCardResult_def split: option.splits)
  from ingestInv_parts[OF s] w have "zeroMastery (timerItems (CardTimer b (cardClosure w s)))"
    by (simp add: cardClosure_def zeroMastery_at)
  with s have "ingestInv (s\<lparr>timers := timers s @ [CardTimer b (cardClosure w s)]\<rparr>)"
    by (rule ingestInv_timer)
  then show ?thesis by (simp add: s' ingestInv_def allItems_def)
qed

lemma ingestInv_handleQuizAnswer:
  assumes s: "ingestInv s" and h: "handleQuizAnswer b s = Some s'"
  shows "ingestInv s'"
proof (cases "isProcessing s")
  case True
  with s h show ?thesis by (simp add: handleQuizAnswer_def)
next
  case False
  with h obtain q where q: "at (quizQuestions s) (currentQuizIndex s) = Some q" and
    s': "s' = s\<lparr>isProcessing := True, timers := timers s @
          [QuizTimer b (quizClosure (find (\<lambda>w. termKey w = toLowerCase (word q)) (historyWords s)) s)]\<rparr>"
    by (auto simp add: handleQuizAnswer_def Let_def split: option.splits)
  let ?o = "find (\<lambda>w. termKey w = toLowerCase (word q)) (historyWords s)"
  from ingestInv_parts[OF s] have "zeroMastery (timerItems (QuizTimer b (quizClosure ?o s)))"
    by (auto simp add: quizClosure_def zeroMastery_find split: option.splits)
  with s have "ingestInv (s\<lparr>timers := timers s @ [QuizTimer b (quizClosure ?o s)]\<rparr>)"
    by (rule ingestInv_timer)
  then show ?thesis by (simp add: s' ingestInv_def allItems_def)
qed

lemma ingestInv_ignores:
  "ingestInv s \<Longrightarrow> wordList t = wordList s \<Longrightarrow> missedWords t = missedWords s \<Longrightarrow>
   historyWords t = historyWords s \<Longrightarrow> lastIncorrectInSession t = lastIncorrectInSession s \<Longrightarrow>
   library t = library s \<Longrightarrow> pendingUploads t = pendingUploads s \<Longrightarrow> timers t = timers s \<Longrightarrow>
   ingestInv t"
  by (simp add: ingestInv_def allItems_def)

lemma ingestInv_cardTimeout:
  assumes s: "ingestInv s" and c: "zeroMastery (timerItems (CardTimer b c))"
  shows "ingestInv (cardTimeout now b c s)"
proof -
  let ?w = "cc_currentWord c"
  from c have w: "masteryLevel ?w = 0" and m: "zeroMastery (cc_missedWords c)"
    and h: "zeroMastery (cc_historyWords c)"
    by simp_all
  have h': "zeroMastery (take 500 (?w\<lparr>lastMemorizedAt := Some now\<rparr> #
       filter (\<lambda>x. termKey x \<noteq> termKey ?w) (cc_historyWords c)))"
    using w h by (intro zeroMastery_take) (simp add: zeroMastery_filter)
  have m': "zeroMastery (filter (\<lambda>x. termKey x \<noteq> termKey ?w) (cc_missedWords c))"
    using m by (rule zeroMastery_filter)
  have m'': "zeroMastery (cc_missedWords c @ [?w])"
    using m w by simp
  have l: "zeroMastery (lastIncorrectInSession s @ [?w])"
    using ingestInv_parts(4)[OF s] w by simp
  show ?thesis
    unfolding cardTimeout_def Let_def
    by (simp add: s h' m' m'' l ingestInv_saveMissed ingestInv_saveHistory ingestInv_lastIncorrect
        del: zeroMastery_append zeroMastery_Cons take_Cons_numeral)
qed

lemma ingestInv_quizTimeout:
  assumes s: "ingestInv s" and c: "zeroMastery (timerItems (QuizTimer b c))"
  shows "ingestInv (quizTimeout b c s)"
proof (cases "qc_originalWord c")
  case None
  with s show ?thesis
    by (simp add: quizTimeout_def Let_def)
next
  case (Some w)
  with c have w: "masteryLevel w = 0" and m: "zeroMastery (qc_missedWords c)"
    by simp_all
  have m'': "zeroMastery (qc_missedWords c @ [w])" using m w by simp
  have l: "zeroMastery (lastIncorrectInSession s @ [w])"
    using ingestInv_parts(4)[OF s] w by simp
  show ?thesis
    unfolding quizTimeout_def Let_def
    by (simp add: Some s m'' l ingestInv_saveMissed ingestInv_lastIncorrect
        del: zeroMastery_append zeroMastery_Cons)
qed

lemma ingestInv_fireTimer: "ingestInv s \<Longrightarrow> ingestInv (fireTimer now i s)"
proof (cases "at (timers s) i")
  case None
  assume "ingestInv s"
  with None show ?thesis by (simp add: fireTimer_def)
next
  case (Some t)
  assume s: "ingestInv s"
  then have p: "ingestInv (s\<lparr>timers := dropAt i (timers s)\<rparr>)"
    by (simp add: ingestInv_def allItems_def zeroMastery_dropAt_concat)
  from s Some have t: "zeroMastery (timerItems t)"
    by (auto simp add: ingestInv_def allItems_def dest: zeroMastery_at_concat)
  show ?thesis
  proof (cases t)
    case (CardTimer b c)
    with p t Some show ?thesis by (simp add: fireTimer_def ingestInv_cardTimeout)
  next
    case (QuizTimer b c)
    with p t Some show ?thesis by (simp add: fireTimer_def ingestInv_quizTimeout)
  next
    case ErrorTimer
    with p Some show ?thesis by (simp add: fireTimer_def ingestInv_def allItems_def)
  qed
qed

lemma ingestInv_step:
  assumes s: "ingestInv s" and e: "fromParser e"
  shows "ingestInv (step now e s)"
proof (cases e)
  case ChooseFile
  from s show ?thesis
    by (simp add: ChooseFile ingestInv_def allItems_def)
next
  case (Upload i ws f ty)
  with e show ?thesis by simp
next
  case (FileParsed i clock src f)
  from s have p: "ingestInv (s\<lparr>pendingUploads := dropAt i (pendingUploads s)\<rparr>)"
    by (simp add: ingestInv_def allItems_def zeroMastery_dropAt_concat list_all_dropAt)
  show ?thesis
  proof (cases "parseFile clock src")
    case None
    with p show ?thesis by (simp add: FileParsed)
  next
    case (Some r)
    obtain ws ty where r: "r = (ws, ty)" by (cases r)
    from Some r parseFile_batch have "distinctIds ws" "zeroMastery ws" by blast+
    with s Some r show ?thesis by (simp add: FileParsed ingestInv_onUpload)
  qed
next
  case ClickReviewMissed
  from s ingestInv_parts[OF s] show ?thesis
    by (simp add: ClickReviewMissed ingestInv_startLearning)
next
  case (ClickWeeklyTest r)
  from s show ?thesis by (simp add: ClickWeeklyTest ingestInv_startWeeklyTest)
next
  case (QuizResponse i r)
  from s show ?thesis
    by (simp add: QuizResponse ingestInv_quizGenerated split: option.splits)
next
  case (ClickSet i)
  show ?thesis
  proof (cases "at (library s) i")
    case None
    with s show ?thesis by (simp add: ClickSet)
  next
    case (Some st)
    from ingestInv_parts(5)[OF s] Some have "zeroMastery (words st)"
      unfolding libraryItems_def by (rule zeroMastery_at_concat)
    with s Some show ?thesis by (simp add: ClickSet ingestInv_startLearning)
  qed
next
  case (ClickDelete i)
  from s show ?thesis
    by (simp add: ClickDelete ingestInv_deleteFromLibrary split: option.splits)
next
  case ClickDemo
  from s show ?thesis by (simp add: ClickDemo ingestInv_startDemoLearning)
next
  case ClickBack
  from s show ?thesis by (simp add: ClickBack)
next
  case (ClickCard b)
  from s show ?thesis
    by (auto simp add: ClickCard dest: ingestInv_handleCardResult split: option.splits)
next
  case (ClickOption k)
  from s show ?thesis
    by (auto simp add: ClickOption dest: ingestInv_handleQuizAnswer split: option.splits)
next
  case (TimerFires i)
  from s show ?thesis by (simp add: TimerFires ingestInv_fireTimer)
next
  case ClickReviewRound
  from s ingestInv_parts[OF s] show ?thesis
    by (simp add: ClickReviewRound ingestInv_startLearning)
next
  case ClickHome
  from s show ?thesis by (simp add: ClickHome)
qed

lemma ingestInv_run: "ingestInv s \<Longrightarrow> parsedUploads es \<Longrightarrow> ingestInv (run es s)"
proof (induction es arbitrary: s)
  case Nil
  then show ?case by simp
next
  case (Cons a es)
  obtain now e where a: "a = (now, e)" by (cases a)
  from Cons.prems a have "fromParser e" "parsedUploads es" by (simp_all add: parsedUploads_def)
  with Cons.prems(1) have "ingestInv (run es (step now e s))"
    by (intro Cons.IH ingestInv_step)
  with a show ?case by simp
qed

lemma ingestInv_initialApp: "ingestInv initialApp"
  by (simp add: ingestInv_def allItems_def initialApp_def libraryItems_def distinctSets_def)

lemma distinctIds_set:
  "distinctSets sets \<Longrightarrow> at sets i = Some st \<Longrightarrow> distinctIds (words st)"
  unfolding distinctSets_def by (rule list_all_at)

lemma wordList_startLearning: "wordList (startLearning now ws s) = uniqueWords ws"
  by (simp add: startLearning_def Let_def)

lemma wordList_handleUpload: "wordList (handleUpload lib now ws f ty s) = uniqueWords ws"
  by (simp add: handleUpload_def Let_def wordList_startLearning)

lemma wordList_startDemoLearning: "wordList (startDemoLearning now s) = uniqueWords DEMO_WORDS"
  by (simp add: startDemoLearning_def Let_def wordList_startLearning)

subsection \<open>The example file\<close>

lemma splitLines_exampleFile:
  "splitLines exampleFile =
     [''Term,Definition'', ''apple, a fruit'', ''Apple'', [], ''  banana'', []]"
  by (simp add: splitLines_def exampleFile_def dropCR_def)

lemma trim_examples:
  "trim ''apple'' = ''apple''" "trim '' a fruit'' = ''a fruit''"
  "trim ''  banana'' = ''banana''" "trim ''Apple'' = ''Apple''" "trim [] = []"
  "trim ''Term,Definition'' = ''Term,Definition''"
  "trim ''apple, a fruit'' = ''apple, a fruit''"
  by (simp_all add: trim_def isSpace_def)

lemma toLowerCase_examples:
  "toLowerCase ''Term,Definition'' = ''term,definition''"
  "toLowerCase ''apple, a fruit'' = ''apple, a fruit''"
  "toLowerCase ''Apple'' = ''apple''" "toLowerCase ''  banana'' = ''  banana''"
  by (simp_all add: toLowerCase_def toLowerChar_def)

lemma textLine_header: "textLine (\<lambda>i. 1) 0 ''Term,Definition'' = None"
  by (simp add: textLine_def toLowerCase_examples)

lemma textLine_apple:
  "textLine (\<lambda>i. 1) (Suc 0) ''apple, a fruit'' =
     Some ((wordItem ''word-1-1'' ''apple'')\<lparr>definition_w := Some ''a fruit''\<rparr>)"
  by (simp add: textLine_def toLowerCase_examples trim_examples showNat.simps digitChar_def
      numToString_def wordItem_def at_def)

lemma textLine_Apple: "textLine (\<lambda>i. 1) 2 ''Apple'' = Some (wordItem ''word-2-1'' ''Apple'')"
  by (simp add: textLine_def toLowerCase_examples trim_examples showNat.simps digitChar_def
      numToString_def wordItem_def at_def)

lemma textLine_banana:
  "textLine (\<lambda>i. 1) 3 ''  banana'' = Some (wordItem ''word-3-1'' ''banana'')"
  by (simp add: textLine_def toLowerCase_examples trim_examples showNat.simps digitChar_def
      numToString_def wordItem_def at_def)

lemma parseTextOrCsv_exampleFile:
  "parseTextOrCsv (\<lambda>i. 1) exampleFile = Some (exampleBatch, TEXT)"
  by (simp add: splitLines_exampleFile parseTextOrCsv_def trim_examples textLine_header
      textLine_apple textLine_Apple textLine_banana exampleBatch_def List.map_filter_def
      numeral_2_eq_2 [symmetric] numeral_3_eq_3 [symmetric] Let_def)

lemma run_uploadRun:
  "run uploadRun initialApp =
     initialApp\<lparr>library := [exampleSet], vocab_boost_library_v1 := Some [exampleSet],
       wordList := [exampleBatch ! 0, exampleBatch ! 2],
       stats := \<lparr>total_st = 2, correct = 0, incorrect = 0, wordCount_st = 2,
                 startTime = 2000\<rparr>\<rparr>"
proof -
  have u: "uniqueWords exampleBatch = [exampleBatch ! 0, exampleBatch ! 2]" by code_simp
  have i: "''set-'' @ numToString 2000 = ''set-2000''"
    by (simp add: numToString_def showNat.simps digitChar_def)
  show ?thesis
    unfolding uploadRun_def
    by (simp add: parseTextOrCsv_exampleFile initialApp_def onUpload_def at_def dropAt_def
        handleUpload_def saveToLibrary_def startLearning_def Let_def exampleSet_def u i
        del: append.simps)
      (simp add: exampleBatch_def)
qed

text \<open>
  Claim C5, as the code has it. \<open>startLearning\<close> assigns no id and sets no mastery level:
  every item of the session's word list is an item of the input, so it carries the id
  and the mastery level it arrived with, and ids that are pairwise distinct in the input
  stay so. The ids and the mastery level 0 are written where the items are built: by
  the four parsers of \<open>FileUpload\<close> (\<open>parseFile\<close>), whose batch has pairwise distinct ids and
  mastery level 0 throughout, and in \<open>DEMO_WORDS\<close>. So the session after an upload and
  the demo session have pairwise distinct ids and mastery level 0; and in every run of
  the component from its initial state in which the uploads are made by \<open>FileUpload\<close>,
  every item of the word list, and every item the component holds, has mastery level 0,
  and a session opened from a set of the library has the items of that set, with
  pairwise distinct ids.
\<close>

theorem startLearning_assigns_nothing:
  "set (wordList (startLearning now ws s)) \<subseteq> set ws
   \<and> (distinctIds ws \<longrightarrow> distinctIds (wordList (startLearning now ws s)))
   \<and> (parseFile clock src = Some (batch, ty) \<longrightarrow>
        distinctIds batch \<and> zeroMastery batch
        \<and> distinctIds (wordList (handleUpload lib now batch fileName ty s))
        \<and> zeroMastery (wordList (handleUpload lib now batch fileName ty s)))
   \<and> distinctIds DEMO_WORDS \<and> zeroMastery DEMO_WORDS
   \<and> distinctIds (wordList (startDemoLearning now s))
   \<and> zeroMastery (wordList (startDemoLearning now s))
   \<and> (parsedUploads es \<longrightarrow>
        zeroMastery (wordList (run es initialApp))
        \<and> zeroMastery (allItems (run es initialApp))
        \<and> (view (run es initialApp) = LANDING
             \<and> at (library (run es initialApp)) i = Some st \<longrightarrow>
              wordList (step now (ClickSet i) (run es initialApp)) = uniqueWords (words st)
              \<and> distinctIds (wordList (step now (ClickSet i) (run es initialApp)))))"
proof -
  have a: "set (wordList (startLearning now ws s)) \<subseteq> set ws"
    by (simp add: wordList_startLearning set_uniqueWords)
  have u: "distinctIds xs \<Longrightarrow> distinctIds (uniqueWords xs)" for xs
    by (simp add: distinctIds_def distinct_ids_uniqueWords)
  have b: "distinctIds ws \<longrightarrow> distinctIds (wordList (startLearning now ws s))"
    by (simp add: wordList_startLearning u)
  have c: "parseFile clock src = Some (batch, ty) \<longrightarrow>
        distinctIds batch \<and> zeroMastery batch
        \<and> distinctIds (wordList (handleUpload lib now batch fileName ty s))
        \<and> zeroMastery (wordList (handleUpload lib now batch fileName ty s))"
    using parseFile_batch[of clock src batch ty]
    by (simp add: wordList_handleUpload u zeroMastery_uniqueWords)
  have d: "distinctIds (wordList (startDemoLearning now s))"
      "zeroMastery (wordList (startDemoLearning now s))"
    by (simp_all add: wordList_startDemoLearning u distinctIds_DEMO_WORDS
        zeroMastery_uniqueWords zeroMastery_DEMO_WORDS)
  have e: "parsedUploads es \<longrightarrow>
        zeroMastery (wordList (run es initialApp))
        \<and> zeroMastery (allItems (run es initialApp))
        \<and> (view (run es initialApp) = LANDING
             \<and> at (library (run es initialApp)) i = Some st \<longrightarrow>
              wordList (step now (ClickSet i) (run es initialApp)) = uniqueWords (words st)
              \<and> distinctIds (wordList (step now (ClickSet i) (run es initialApp))))"
  proof
    assume "parsedUploads es"
    with ingestInv_initialApp have r: "ingestInv (run es initialApp)" by (rule ingestInv_run)
    from ingestInv_parts(6)[OF r] have
      "at (library (run es initialApp)) i = Some st \<Longrightarrow> distinctIds (uniqueWords (words st))"
      by (intro u) (rule distinctIds_set)
    with r ingestInv_parts(1)[OF r] show "zeroMastery (wordList (run es initialApp))
        \<and> zeroMastery (allItems (run es initialApp))
        \<and> (view (run es initialApp) = LANDING
             \<and> at (library (run es initialApp)) i = Some st \<longrightarrow>
              wordList (step now (ClickSet i) (run es initialApp)) = uniqueWords (words st)
              \<and> distinctIds (wordList (step now (ClickSet i) (run es initialApp))))"
      by (simp add: ingestInv_def wordList_startLearning)
  qed
  from a b c d e distinctIds_DEMO_WORDS zeroMastery_DEMO_WORDS show ?thesis by blast
qed

theorem startLearning_assigns_nothing_witness:
  "distinctIds exampleWords
   \<and> map id_w (wordList (startLearning 0 exampleWords initialApp))
       = [''word-0-1'', ''word-2-1'']
   \<and> distinctIds (wordList (startLearning 0 exampleWords initialApp))
   \<and> parseFile (\<lambda>i. 1) (TextFile exampleFile) = Some (exampleBatch, TEXT)
   \<and> map id_w exampleBatch = [''word-1-1'', ''word-2-1'', ''word-3-1'']
   \<and> distinctIds exampleBatch \<and> zeroMastery exampleBatch
   \<and> map id_w (wordList (handleUpload [] 0 exampleBatch ''list.csv'' TEXT initialApp))
       = [''word-1-1'', ''word-3-1'']
   \<and> distinctIds (wordList (handleUpload [] 0 exampleBatch ''list.csv'' TEXT initialApp))
   \<and> zeroMastery (wordList (handleUpload [] 0 exampleBatch ''list.csv'' TEXT initialApp))
   \<and> parsedUploads uploadRun
   \<and> view (run uploadRun initialApp) = LANDING
   \<and> at (library (run uploadRun initialApp)) 0 = Some exampleSet
   \<and> zeroMastery (wordList (run uploadRun initialApp))
   \<and> zeroMastery (allItems (run uploadRun initialApp))
   \<and> wordList (step 0 (ClickSet 0) (run uploadRun initialApp)) = uniqueWords (words exampleSet)
   \<and> distinctIds (wordList (step 0 (ClickSet 0) (run uploadRun initialApp)))"
proof -
  have d: "distinctIds exampleWords" by code_simp
  have i: "map id_w (wordList (startLearning 0 exampleWords initialApp))
       = [''word-0-1'', ''word-2-1'']"
    by code_simp
  have p: "parseFile (\<lambda>i. 1) (TextFile exampleFile) = Some (exampleBatch, TEXT)"
    by (simp add: parseTextOrCsv_exampleFile)
  have b: "map id_w exampleBatch = [''word-1-1'', ''word-2-1'', ''word-3-1'']"
    by (simp add: exampleBatch_def wordItem_def)
  have h: "map id_w (wordList (handleUpload [] 0 exampleBatch ''list.csv'' TEXT initialApp))
       = [''word-1-1'', ''word-3-1'']"
    by (simp add: wordList_handleUpload) code_simp
  have u: "parsedUploads uploadRun" by (simp add: parsedUploads_def uploadRun_def)
  have v: "view (run uploadRun initialApp) = LANDING"
    unfolding run_uploadRun by (simp add: initialApp_def)
  have l: "at (library (run uploadRun initialApp)) 0 = Some exampleSet"
    unfolding run_uploadRun by (simp add: at_def)
  from startLearning_assigns_nothing[where ws = exampleWords and now = 0 and s = initialApp
      and clock = "\<lambda>i. 1" and src = "TextFile exampleFile" and batch = exampleBatch
      and ty = TEXT and lib = "[]" and fileName = "''list.csv''" and es = uploadRun and i = 0
      and st = exampleSet] d i p b h u v l
  show ?thesis by blast
qed

text \<open>
  Claim C5 as stated fails: the ids of a session are not new. A second demo session has
  the 8 ids of the first, those of \<open>DEMO_WORDS\<close>; and the session opened from the set that
  an upload saved has the ids of the session the upload started.
\<close>

theorem startLearning_keeps_ids:
  "length (wordList (run [(1000, ClickDemo)] initialApp)) = 8
   \<and> map id_w (wordList (run [(1000, ClickDemo)] initialApp)) = map id_w DEMO_WORDS
   \<and> map id_w (wordList (run [(1000, ClickDemo), (3000, ClickBack), (5000, ClickDemo)]
                          initialApp))
       = map id_w (wordList (run [(1000, ClickDemo)] initialApp))
   \<and> map id_w (wordList (run uploadRun initialApp)) = [''word-1-1'', ''word-3-1'']
   \<and> map id_w (wordList (step 4000 (ClickSet 0) (run uploadRun initialApp)))
       = map id_w (wordList (run uploadRun initialApp))"
proof -
  have "wordList (step 4000 (ClickSet 0) (run uploadRun initialApp))
      = wordList (run uploadRun initialApp)"
    unfolding run_uploadRun
    by (simp add: initialApp_def at_def startLearning_def Let_def exampleSet_def) code_simp
  moreover have "map id_w (wordList (run uploadRun initialApp)) = [''word-1-1'', ''word-3-1'']"
    unfolding run_uploadRun by (simp add: exampleBatch_def wordItem_def)
  moreover have "length (wordList (run [(1000, ClickDemo)] initialApp)) = 8
   \<and> map id_w (wordList (run [(1000, ClickDemo)] initialApp)) = map id_w DEMO_WORDS
   \<and> map id_w (wordList (run [(1000, ClickDemo), (3000, ClickBack), (5000, ClickDemo)]
                          initialApp))
       = map id_w (wordList (run [(1000, ClickDemo)] initialApp))"
    by code_simp
  ultimately show ?thesis by simp
qed

section \<open>The weekly test\<close>

lemma recentWords_window:
  "604800000 \<le> now \<Longrightarrow>
   recentWords now h =
     filter (\<lambda>w. case lastMemorizedAt w of None \<Rightarrow> False | Some t \<Rightarrow> now - t < 604800000) h"
  by (auto simp add: recentWords_def Let_def intro!: filter_cong split: option.splits)

text \<open>
  Claim C8. The test is open (\<open>canTest\<close>, and the same comparison in
  \<open>startWeeklyTest\<close>) exactly when at least 3 items of History are recent; with a clock
  past the first week of 1970 an item is recent exactly when it has a time stamp less
  than 7 days before \<open>now\<close>. When the test is not open, \<open>startWeeklyTest\<close> only shows the
  message (and starts its 3000 ms timer): no request goes to the quiz service, and the
  view, the questions, the stats and the loading flag stay as they are. When it is open,
  one request is sent.
\<close>

theorem weekly_test_gate:
  "canTest now s = (3 \<le> length (recentWords now (historyWords s)))
   \<and> (604800000 \<le> now \<longrightarrow>
        recentWords now (historyWords s) =
          filter (\<lambda>w. case lastMemorizedAt w of None \<Rightarrow> False
                       | Some t \<Rightarrow> now - t < 604800000) (historyWords s))
   \<and> (\<not> canTest now s \<longrightarrow>
        startWeeklyTest now sortRandom s =
          s\<lparr>errorMessage := Some NeedThreeWords, timers := timers s @ [ErrorTimer]\<rparr>
        \<and> quizRequests (startWeeklyTest now sortRandom s) = quizRequests s
        \<and> view (startWeeklyTest now sortRandom s) = view s
        \<and> quizQuestions (startWeeklyTest now sortRandom s) = quizQuestions s
        \<and> stats (startWeeklyTest now sortRandom s) = stats s
        \<and> quizLoading (startWeeklyTest now sortRandom s) = quizLoading s
        \<and> quizRequests (step now (ClickWeeklyTest sortRandom) s) = quizRequests s)
   \<and> (canTest now s \<longrightarrow>
        quizRequests (startWeeklyTest now sortRandom s) =
          quizRequests s @
            [map term_w (take 10 (sortRandom (recentWords now (historyWords s))))])"
proof -
  have 1: "canTest now s = (3 \<le> length (recentWords now (historyWords s)))"
    by (simp add: canTest_def)
  have 3: "\<not> canTest now s \<longrightarrow>
        startWeeklyTest now sortRandom s =
          s\<lparr>errorMessage := Some NeedThreeWords, timers := timers s @ [ErrorTimer]\<rparr>"
    by (simp add: canTest_def startWeeklyTest_def Let_def)
  have 4: "canTest now s \<longrightarrow>
        quizRequests (startWeeklyTest now sortRandom s) =
          quizRequests s @
            [map term_w (take 10 (sortRandom (recentWords now (historyWords s))))]"
    by (simp add: canTest_def startWeeklyTest_def Let_def)
  have 5: "\<not> canTest now s \<longrightarrow>
        quizRequests (step now (ClickWeeklyTest sortRandom) s) = quizRequests s"
    using 3 by simp
  from 3 have 6: "\<not> canTest now s \<longrightarrow>
          quizRequests (startWeeklyTest now sortRandom s) = quizRequests s
        \<and> view (startWeeklyTest now sortRandom s) = view s
        \<and> quizQuestions (startWeeklyTest now sortRandom s) = quizQuestions s
        \<and> stats (startWeeklyTest now sortRandom s) = stats s
        \<and> quizLoading (startWeeklyTest now sortRandom s) = quizLoading s"
    by simp
  from 1 3 4 5 6 recentWords_window[of now "historyWords s"] show ?thesis by blast
qed

theorem weekly_test_gate_witness:
  "(604800000::int) \<le> 1700000001000
   \<and> recentWords 1700000001000 (historyWords threeRecent) =
       filter (\<lambda>w. case lastMemorizedAt w of None \<Rightarrow> False
                    | Some t \<Rightarrow> 1700000001000 - t < 604800000) (historyWords threeRecent)
   \<and> length (recentWords 1700000001000 (historyWords twoRecent)) = 2
   \<and> \<not> canTest 1700000001000 twoRecent
   \<and> quizRequests (startWeeklyTest 1700000001000 (\<lambda>ws. ws) twoRecent) = []
   \<and> errorMessage (startWeeklyTest 1700000001000 (\<lambda>ws. ws) twoRecent) = Some NeedThreeWords
   \<and> length (recentWords 1700000001000 (historyWords threeRecent)) = 3
   \<and> canTest 1700000001000 threeRecent
   \<and> quizRequests (startWeeklyTest 1700000001000 (\<lambda>ws. ws) threeRecent)
       = [[''Environment'', ''Challenge'', ''Technology'']]"
proof -
  have n: "(604800000::int) \<le> 1700000001000" by simp
  have r2: "length (recentWords 1700000001000 (historyWords twoRecent)) = 2" by code_simp
  have r3: "length (recentWords 1700000001000 (historyWords threeRecent)) = 3" by code_simp
  have q2: "quizRequests twoRecent = []" by code_simp
  have q3: "quizRequests threeRecent @
            [map term_w (take 10 ((\<lambda>ws. ws) (recentWords 1700000001000 (historyWords threeRecent))))]
        = [[''Environment'', ''Challenge'', ''Technology'']]" by code_simp
  from weekly_test_gate[where s = twoRecent and now = 1700000001000 and sortRandom = "\<lambda>ws. ws"] r2
  have a: "\<not> canTest 1700000001000 twoRecent
     \<and> quizRequests (startWeeklyTest 1700000001000 (\<lambda>ws. ws) twoRecent) = quizRequests twoRecent
     \<and> startWeeklyTest 1700000001000 (\<lambda>ws. ws) twoRecent =
          twoRecent\<lparr>errorMessage := Some NeedThreeWords, timers := timers twoRecent @ [ErrorTimer]\<rparr>"
    by simp
  then have e: "errorMessage (startWeeklyTest 1700000001000 (\<lambda>ws. ws) twoRecent) = Some NeedThreeWords"
    by simp
  from weekly_test_gate[where s = threeRecent and now = 1700000001000 and sortRandom = "\<lambda>ws. ws"] r3
  have b: "canTest 1700000001000 threeRecent
     \<and> quizRequests (startWeeklyTest 1700000001000 (\<lambda>ws. ws) threeRecent) =
          quizRequests threeRecent @
            [map term_w (take 10 ((\<lambda>ws. ws) (recentWords 1700000001000 (historyWords threeRecent))))]"
    by simp
  from weekly_test_gate[where s = threeRecent and now = 1700000001000] n
  have w: "recentWords 1700000001000 (historyWords threeRecent) =
       filter (\<lambda>w. case lastMemorizedAt w of None \<Rightarrow> False
                    | Some t \<Rightarrow> 1700000001000 - t < 604800000) (historyWords threeRecent)"
    by blast
  from a b e r2 r3 q2 q3 n w show ?thesis by simp
qed

subsection \<open>The sample\<close>

text \<open>
  The sample sent to the quiz service, for whatever rearrangement the random sort
  returns: it has \<open>min 10 count\<close> items, all of them recent items, and with at most 10
  recent items (so with exactly 3) it holds every recent item exactly once.
\<close>

lemma sample_of_rearrangement:
  assumes "mset (sortRandom recent) = mset recent"
  shows "length (take 10 (sortRandom recent)) = min 10 (length recent)
     \<and> mset (take 10 (sortRandom recent)) \<subseteq># mset recent
     \<and> (length recent \<le> 10 \<longrightarrow> mset (take 10 (sortRandom recent)) = mset recent)"
proof -
  from assms have l: "length (sortRandom recent) = length recent"
    by (metis size_mset)
  have "mset (take 10 (sortRandom recent)) \<subseteq># mset (sortRandom recent)"
    by (metis append_take_drop_id mset_append mset_subset_eq_add_left)
  with assms l show ?thesis by (simp add: min_def)
qed

lemma sample_three:
  assumes "mset (sortRandom (recentWords now (historyWords s))) = mset (recentWords now (historyWords s))"
    and "length (recentWords now (historyWords s)) = 3"
  shows "quizRequests (startWeeklyTest now sortRandom s) =
           quizRequests s @
             [map term_w (take 10 (sortRandom (recentWords now (historyWords s))))]
     \<and> mset (take 10 (sortRandom (recentWords now (historyWords s))))
         = mset (recentWords now (historyWords s))
     \<and> length (take 10 (sortRandom (recentWords now (historyWords s)))) = 3"
proof -
  from assms(2) have "quizRequests (startWeeklyTest now sortRandom s) =
           quizRequests s @
             [map term_w (take 10 (sortRandom (recentWords now (historyWords s))))]"
    by (simp add: startWeeklyTest_def Let_def)
  moreover from sample_of_rearrangement[of sortRandom "recentWords now (historyWords s)"] assms
  have "mset (take 10 (sortRandom (recentWords now (historyWords s))))
         = mset (recentWords now (historyWords s))
     \<and> length (take 10 (sortRandom (recentWords now (historyWords s)))) = 3"
    by simp
  ultimately show ?thesis by blast
qed

























section \<open>The demo\<close>

text \<open>
  Claim C10. Whatever History held before, after \<open>startDemoLearning\<close> History (and its
  stored copy) is the first 4 demo words, \<open>Environment\<close>, \<open>Challenge\<close>, \<open>Technology\<close> and
  \<open>Experience\<close>, each stamped with the time of the activation; the weekly test is open
  at that time, and stays open until 7 days later.
\<close>

theorem demo_replaces_history:
  "historyWords (startDemoLearning now s) =
     map (\<lambda>w. w\<lparr>lastMemorizedAt := Some now\<rparr>) (take 4 DEMO_WORDS)
   \<and> vocab_boost_history_words (startDemoLearning now s)
       = Some (historyWords (startDemoLearning now s))
   \<and> map term_w (historyWords (startDemoLearning now s))
       = [''Environment'', ''Challenge'', ''Technology'', ''Experience'']
   \<and> map lastMemorizedAt (historyWords (startDemoLearning now s))
       = [Some now, Some now, Some now, Some now]
   \<and> canTest now (startDemoLearning now s)
   \<and> canTest later (startDemoLearning now s) = (later - 604800000 < now)
   \<and> step now ClickDemo (s\<lparr>view := LANDING\<rparr>) = startDemoLearning now (s\<lparr>view := LANDING\<rparr>)"
proof -
  have h: "historyWords (startDemoLearning now s) =
     map (\<lambda>w. w\<lparr>lastMemorizedAt := Some now\<rparr>) (take 4 DEMO_WORDS)"
    by (simp add: startDemoLearning_def Let_def startLearning_def saveToLibrary_def
        saveHistory_def)
  have v: "vocab_boost_history_words (startDemoLearning now s)
       = Some (historyWords (startDemoLearning now s))"
    by (simp add: startDemoLearning_def Let_def startLearning_def saveToLibrary_def
        saveHistory_def)
  have t: "map term_w (map (\<lambda>w. w\<lparr>lastMemorizedAt := Some now\<rparr>) (take 4 DEMO_WORDS))
       = [''Environment'', ''Challenge'', ''Technology'', ''Experience'']"
    by (simp add: DEMO_WORDS_def wordItem_def)
  have l: "map lastMemorizedAt (map (\<lambda>w. w\<lparr>lastMemorizedAt := Some now\<rparr>) (take 4 DEMO_WORDS))
       = [Some now, Some now, Some now, Some now]"
    by (simp add: DEMO_WORDS_def wordItem_def)
  have c: "canTest later (startDemoLearning now s) = (later - 604800000 < now)" for later
    by (simp add: canTest_def h recentWords_def DEMO_WORDS_def wordItem_def Let_def)
  from h v t l c[of later] c[of now] show ?thesis by simp
qed

end
